theory Spec2Isabelle
  imports Complex_Main
begin

section \<open>Numbers and arrays\<close>

text \<open>
  The program computes on numpy arrays of double-precision numbers. The model keeps the
  exceptional values of the arithmetic (the two infinities and not-a-number) and what the
  operations do on them, because several operations of the program divide by a sum that can
  be zero, and numpy (in its default error state) then warns and returns \<open>inf\<close> or
  \<open>nan\<close> instead of raising. On finite values the model computes with exact real numbers:
  rounding, overflow and the sign of zero are not modelled.
\<close>

datatype fnum = Fin real | PInf | NInf | NaN

fun is_fin :: "fnum \<Rightarrow> bool" where
  "is_fin (Fin a) = True"
| "is_fin v = False"

fun fneg :: "fnum \<Rightarrow> fnum" where
  "fneg (Fin a) = Fin (- a)"
| "fneg PInf = NInf"
| "fneg NInf = PInf"
| "fneg NaN = NaN"

fun fadd :: "fnum \<Rightarrow> fnum \<Rightarrow> fnum" where
  "fadd (Fin a) (Fin b) = Fin (a + b)"
| "fadd NaN v = NaN"
| "fadd v NaN = NaN"
| "fadd PInf NInf = NaN"
| "fadd NInf PInf = NaN"
| "fadd PInf v = PInf"
| "fadd v PInf = PInf"
| "fadd NInf v = NInf"
| "fadd v NInf = NInf"

definition fsub :: "fnum \<Rightarrow> fnum \<Rightarrow> fnum" where
  "fsub a b = fadd a (fneg b)"

fun fmul :: "fnum \<Rightarrow> fnum \<Rightarrow> fnum" where
  "fmul (Fin a) (Fin b) = Fin (a * b)"
| "fmul NaN v = NaN"
| "fmul v NaN = NaN"
| "fmul (Fin a) PInf = (if a = 0 then NaN else if 0 < a then PInf else NInf)"
| "fmul (Fin a) NInf = (if a = 0 then NaN else if 0 < a then NInf else PInf)"
| "fmul PInf (Fin b) = (if b = 0 then NaN else if 0 < b then PInf else NInf)"
| "fmul NInf (Fin b) = (if b = 0 then NaN else if 0 < b then NInf else PInf)"
| "fmul PInf PInf = PInf"
| "fmul PInf NInf = NInf"
| "fmul NInf PInf = NInf"
| "fmul NInf NInf = PInf"

fun fdiv :: "fnum \<Rightarrow> fnum \<Rightarrow> fnum" where
  "fdiv (Fin a) (Fin b) =
     (if b = 0 then (if a = 0 then NaN else if 0 < a then PInf else NInf) else Fin (a / b))"
| "fdiv NaN v = NaN"
| "fdiv v NaN = NaN"
| "fdiv (Fin a) PInf = Fin 0"
| "fdiv (Fin a) NInf = Fin 0"
| "fdiv PInf (Fin b) = (if 0 \<le> b then PInf else NInf)"
| "fdiv NInf (Fin b) = (if 0 \<le> b then NInf else PInf)"
| "fdiv PInf PInf = NaN"
| "fdiv PInf NInf = NaN"
| "fdiv NInf PInf = NaN"
| "fdiv NInf NInf = NaN"

text \<open>\<open>np.log\<close>, \<open>np.exp\<close>, \<open>np.sqrt\<close> and the power with a natural exponent.\<close>

fun flog :: "fnum \<Rightarrow> fnum" where
  "flog (Fin a) = (if a = 0 then NInf else if 0 < a then Fin (ln a) else NaN)"
| "flog PInf = PInf"
| "flog NInf = NaN"
| "flog NaN = NaN"

fun fexp :: "fnum \<Rightarrow> fnum" where
  "fexp (Fin a) = Fin (exp a)"
| "fexp PInf = PInf"
| "fexp NInf = Fin 0"
| "fexp NaN = NaN"

fun fsqrt :: "fnum \<Rightarrow> fnum" where
  "fsqrt (Fin a) = (if 0 \<le> a then Fin (sqrt a) else NaN)"
| "fsqrt PInf = PInf"
| "fsqrt NInf = NaN"
| "fsqrt NaN = NaN"

primrec fpow :: "fnum \<Rightarrow> nat \<Rightarrow> fnum" where
  "fpow v 0 = Fin 1"
| "fpow v (Suc n) = fmul v (fpow v n)"

type_synonym vec = "fnum list"

text \<open>
  A two-dimensional array is its list of rows together with the number of columns, which
  numpy knows also when there is no row. \<open>wf_matrix\<close> says that every row has that length.
\<close>

record matrix =
  ncols :: nat
  rows :: "vec list"

definition wf_matrix :: "matrix \<Rightarrow> bool" where
  "wf_matrix M = list_all (\<lambda>r. length r = ncols M) (rows M)"

definition nrows :: "matrix \<Rightarrow> nat" where
  "nrows M = length (rows M)"

text \<open>
  The exceptions of the program. A call that raises returns \<open>Inl\<close> of the exception; what
  the object holds after an exception is not part of the model.
\<close>

datatype error = AssertionError | ValueError | IndexError | TypeError | LinAlgError

text \<open>\<open>np.sum\<close> of a vector; the empty sum is 0.\<close>

primrec fsum :: "vec \<Rightarrow> fnum" where
  "fsum [] = Fin 0"
| "fsum (v # vs) = fadd v (fsum vs)"

definition zeros :: "nat \<Rightarrow> vec" where
  "zeros n = replicate n (Fin 0)"

definition zeros2 :: "nat \<Rightarrow> nat \<Rightarrow> matrix" where
  "zeros2 n k = \<lparr>ncols = k, rows = replicate n (zeros k)\<rparr>"

text \<open>\<open>np.eye(n)\<close>.\<close>

definition eye :: "nat \<Rightarrow> matrix" where
  "eye n = \<lparr>ncols = n,
            rows = map (\<lambda>i. map (\<lambda>j. if i = j then Fin 1 else Fin 0) [0..<n]) [0..<n]\<rparr>"

text \<open>
  An index into an axis of length \<open>n\<close>: a negative index counts from the end, and an index
  outside \<open>-n..n-1\<close> raises IndexError.
\<close>

definition norm_index :: "nat \<Rightarrow> int \<Rightarrow> error + nat" where
  "norm_index n i =
     (let j = (if i < 0 then int n + i else i)
      in if 0 \<le> j \<and> j < int n then Inr (nat j) else Inl IndexError)"

text \<open>Reading a column, \<open>M[:, i]\<close>.\<close>

definition get_col :: "matrix \<Rightarrow> int \<Rightarrow> error + vec" where
  "get_col M i =
     (case norm_index (ncols M) i of
        Inl e \<Rightarrow> Inl e
      | Inr j \<Rightarrow> Inr (map (\<lambda>r. r ! j) (rows M)))"

text \<open>
  A vector assigned to, or added into, an axis of length \<open>n\<close> is broadcast: it has length
  \<open>n\<close>, or length 1 and is repeated; anything else raises ValueError.
\<close>

definition broadcast_to :: "nat \<Rightarrow> vec \<Rightarrow> error + vec" where
  "broadcast_to n x =
     (if length x = n then Inr x
      else if length x = 1 then Inr (replicate n (hd x))
      else Inl ValueError)"

section \<open>KLSufficientStatistics\<close>

record kl_stats =
  cluster_id :: int
  K :: int
  rho0 :: vec
  rho :: matrix

text \<open>
  \<open>KLSufficientStatistics.__init__(x, cluster_id, K, size)\<close>: \<open>np.zeros\<close> raises ValueError
  on a negative dimension; the column assignment \<open>rho[:, cluster_id] = x\<close> checks the index,
  then broadcasts \<open>x\<close>.
\<close>

definition KLSufficientStatistics_init :: "vec \<Rightarrow> int \<Rightarrow> int \<Rightarrow> int \<Rightarrow> error + kl_stats" where
  "KLSufficientStatistics_init x cid k sz =
     (if k < 0 then Inl ValueError
      else if sz < 0 then Inl ValueError
      else case norm_index (nat k) cid of
        Inl e \<Rightarrow> Inl e
      | Inr j \<Rightarrow>
         (case broadcast_to (nat sz) x of
            Inl e \<Rightarrow> Inl e
          | Inr xb \<Rightarrow>
              Inr \<lparr>cluster_id = cid, K = k, rho0 = zeros (nat k),
                   rho = \<lparr>ncols = nat k,
                          rows = map2 (\<lambda>r v. r[j := v]) (rows (zeros2 (nat sz) (nat k))) xb\<rparr>\<rparr>))"

text \<open>
  The products of numpy's \<open>dot\<close>: a matrix with a matrix, a matrix with a vector, and
  two vectors. Each raises ValueError when the inner dimensions differ.
\<close>

definition dot_col :: "vec \<Rightarrow> matrix \<Rightarrow> nat \<Rightarrow> fnum" where
  "dot_col v M k = fsum (map2 (\<lambda>a r. fmul a (r ! k)) v (rows M))"

definition mat_mat :: "matrix \<Rightarrow> matrix \<Rightarrow> error + matrix" where
  "mat_mat A B =
     (if ncols A \<noteq> nrows B then Inl ValueError
      else Inr \<lparr>ncols = ncols B, rows = map (\<lambda>ra. map (dot_col ra B) [0..<ncols B]) (rows A)\<rparr>)"

definition vec_dot :: "vec \<Rightarrow> vec \<Rightarrow> error + fnum" where
  "vec_dot u v =
     (if length u \<noteq> length v then Inl ValueError
      else Inr (fsum (map2 fmul u v)))"

definition mat_vec :: "matrix \<Rightarrow> vec \<Rightarrow> error + vec" where
  "mat_vec A v =
     (if ncols A \<noteq> length v then Inl ValueError
      else Inr (map (\<lambda>r. fsum (map2 fmul r v)) (rows A)))"

section \<open>Binary64 arithmetic\<close>

text \<open>
  The definitions above compute on finite values with exact real numbers. That is enough for
  the identities between formulas and for what happens at a division by zero. The sign, the
  size and the limit of a result depend on rounding, overflow and underflow as well. For the
  methods whose properties are of that kind the arithmetic is written with every result
  rounded to binary64: to the nearest value of the format, ties to the even significand, to
  an infinity when the rounded value reaches \<open>2^1024\<close>, and with the fixed quantum
  \<open>2^-1074\<close> below \<open>2^-1022\<close> (gradual underflow). The sign of a zero is not modelled.
\<close>

definition round_even :: "real \<Rightarrow> int" where
  "round_even y =
     (let f = \<lfloor>y\<rfloor> in
      if y - of_int f < 1/2 then f
      else if 1/2 < y - of_int f then f + 1
      else if even f then f else f + 1)"

definition expo :: "real \<Rightarrow> int" where
  "expo x = max \<lfloor>log 2 \<bar>x\<bar>\<rfloor> (- 1022)"

definition round64 :: "real \<Rightarrow> fnum" where
  "round64 x =
     (if x = 0 then Fin 0
      else let q = 2 powi (expo x - 52);
               y = of_int (round_even (x / q)) * q
           in if 2 ^ 1024 \<le> \<bar>y\<bar> then (if 0 < y then PInf else NInf) else Fin y)"

fun rnd :: "fnum \<Rightarrow> fnum" where
  "rnd (Fin a) = round64 a"
| "rnd v = v"

definition radd :: "fnum \<Rightarrow> fnum \<Rightarrow> fnum" where
  "radd a b = rnd (fadd a b)"

definition rsub :: "fnum \<Rightarrow> fnum \<Rightarrow> fnum" where
  "rsub a b = rnd (fsub a b)"

definition rmul :: "fnum \<Rightarrow> fnum \<Rightarrow> fnum" where
  "rmul a b = rnd (fmul a b)"

definition rdiv :: "fnum \<Rightarrow> fnum \<Rightarrow> fnum" where
  "rdiv a b = rnd (fdiv a b)"

text \<open>
  Sums are accumulated from left to right, starting from 0, and a product is rounded before
  it is added (no fused multiply-add). numpy may add the terms of a long sum in another
  order; the statements proved at this level do not depend on the order.
\<close>

definition fsum64 :: "vec \<Rightarrow> fnum" where
  "fsum64 vs = foldl radd (Fin 0) vs"

definition dot_col64 :: "vec \<Rightarrow> matrix \<Rightarrow> nat \<Rightarrow> fnum" where
  "dot_col64 v M k = fsum64 (map2 (\<lambda>a r. rmul a (r ! k)) v (rows M))"

definition vec_mat64 :: "vec \<Rightarrow> matrix \<Rightarrow> error + vec" where
  "vec_mat64 v M =
     (if length v \<noteq> nrows M then Inl ValueError
      else Inr (map (dot_col64 v M) [0..<ncols M]))"

definition mat_mat64 :: "matrix \<Rightarrow> matrix \<Rightarrow> error + matrix" where
  "mat_mat64 A B =
     (if ncols A \<noteq> nrows B then Inl ValueError
      else Inr \<lparr>ncols = ncols B, rows = map (\<lambda>ra. map (dot_col64 ra B) [0..<ncols B]) (rows A)\<rparr>)"

definition vec_dot64 :: "vec \<Rightarrow> vec \<Rightarrow> error + fnum" where
  "vec_dot64 u v =
     (if length u \<noteq> length v then Inl ValueError
      else Inr (fsum64 (map2 rmul u v)))"

text \<open>The broadcasting operations of the weighted batches, rounded.\<close>

definition scale_rows64 :: "vec \<Rightarrow> matrix \<Rightarrow> error + matrix" where
  "scale_rows64 w X =
     (if length w = nrows X then
        Inr \<lparr>ncols = ncols X, rows = map2 (\<lambda>wi r. map (rmul wi) r) w (rows X)\<rparr>
      else if length w = 1 then
        Inr \<lparr>ncols = ncols X, rows = map (map (rmul (hd w))) (rows X)\<rparr>
      else if nrows X = 1 then
        Inr \<lparr>ncols = ncols X, rows = map (\<lambda>wi. map (rmul wi) (hd (rows X))) w\<rparr>
      else Inl ValueError)"

definition sub_row64 :: "matrix \<Rightarrow> vec \<Rightarrow> error + matrix" where
  "sub_row64 X m =
     (if ncols X = length m then
        Inr \<lparr>ncols = ncols X, rows = map (\<lambda>r. map2 rsub r m) (rows X)\<rparr>
      else if length m = 1 then
        Inr \<lparr>ncols = ncols X, rows = map (map (\<lambda>v. rsub v (hd m))) (rows X)\<rparr>
      else if ncols X = 1 then
        Inr \<lparr>ncols = length m, rows = map (\<lambda>r. map (rsub (hd r)) m) (rows X)\<rparr>
      else Inl ValueError)"

definition sum_axis0_64 :: "matrix \<Rightarrow> vec" where
  "sum_axis0_64 M = map (\<lambda>j. fsum64 (map (\<lambda>r. r ! j) (rows M))) [0..<ncols M]"

definition sq_norms64 :: "matrix \<Rightarrow> vec" where
  "sq_norms64 M = map (\<lambda>r. fsum64 (map (\<lambda>v. rmul v v) r)) (rows M)"

section \<open>\<open>KLSufficientStatistics.online_update\<close>\<close>

text \<open>
  \<open>online_update(x, r, step)\<close>, in binary64. Line by line:
  \<open>rho0 = (1 - step) * rho0.dot(r)\<close>; \<open>rho0[cluster_id] += step\<close> (the index is checked
  against the new length); \<open>rho = (1 - step) * rho.dot(r)\<close>; \<open>rho[:, cluster_id] += step * x\<close>
  (index check, then \<open>step * x\<close> is broadcast along the column).
\<close>

definition KLSufficientStatistics_online_update ::
    "kl_stats \<Rightarrow> vec \<Rightarrow> matrix \<Rightarrow> fnum \<Rightarrow> error + kl_stats" where
  "KLSufficientStatistics_online_update s x r step =
     (case vec_mat64 (rho0 s) r of
        Inl e \<Rightarrow> Inl e
      | Inr v0 \<Rightarrow>
         let rho0a = map (rmul (rsub (Fin 1) step)) v0 in
         (case norm_index (length rho0a) (cluster_id s) of
            Inl e \<Rightarrow> Inl e
          | Inr j \<Rightarrow>
             let rho0b = rho0a[j := radd (rho0a ! j) step] in
             (case mat_mat64 (rho s) r of
                Inl e \<Rightarrow> Inl e
              | Inr m \<Rightarrow>
                 let rhoa = map (map (rmul (rsub (Fin 1) step))) (rows m) in
                 (case norm_index (ncols m) (cluster_id s) of
                    Inl e \<Rightarrow> Inl e
                  | Inr j2 \<Rightarrow>
                     (case broadcast_to (length rhoa) (map (rmul step) x) of
                        Inl e \<Rightarrow> Inl e
                      | Inr sx \<Rightarrow>
                          Inr (s\<lparr>rho0 := rho0b,
                                 rho := \<lparr>ncols = ncols m,
                                         rows = map2 (\<lambda>rw v. rw[j2 := radd (rw ! j2) v]) rhoa sx\<rparr>\<rparr>))))))"

text \<open>
  A driver calling \<open>online_update\<close> once for each element of a list of arguments
  \<open>(x, r, step)\<close>; an exception ends the run.
\<close>

fun online_updates :: "kl_stats \<Rightarrow> (vec \<times> matrix \<times> fnum) list \<Rightarrow> error + kl_stats" where
  "online_updates s [] = Inr s"
| "online_updates s ((x, r, step) # us) =
     (case KLSufficientStatistics_online_update s x r step of
        Inl e \<Rightarrow> Inl e
      | Inr s' \<Rightarrow> online_updates s' us)"

section \<open>KL\<close>

record kl =
  KL_mean :: vec

text \<open>\<open>log_pdf(X) = X.dot(np.log(mean))\<close> and \<open>pdf(X, normalized) = np.exp(X.dot(np.log(mean)))\<close>.\<close>

definition KL_log_pdf :: "kl \<Rightarrow> matrix \<Rightarrow> error + vec" where
  "KL_log_pdf d X = mat_vec X (map flog (KL_mean d))"

definition KL_pdf :: "kl \<Rightarrow> matrix \<Rightarrow> bool \<Rightarrow> error + vec" where
  "KL_pdf d X normalized =
     (case mat_vec X (map flog (KL_mean d)) of
        Inl e \<Rightarrow> Inl e
      | Inr v \<Rightarrow> Inr (map fexp v))"

definition KL_new_sufficient_statistics :: "kl \<Rightarrow> vec \<Rightarrow> int \<Rightarrow> int \<Rightarrow> error + kl_stats" where
  "KL_new_sufficient_statistics d x cid k =
     KLSufficientStatistics_init x cid k (int (length (KL_mean d)))"

text \<open>\<open>online_max_likelihood\<close>: \<open>mean = rho.dot(phi) / rho0.dot(phi)\<close>, a vector by a scalar.\<close>

definition KL_online_max_likelihood :: "kl \<Rightarrow> kl_stats \<Rightarrow> vec \<Rightarrow> error + kl" where
  "KL_online_max_likelihood d rho_obs phi =
     (case mat_vec (rho rho_obs) phi of
        Inl e \<Rightarrow> Inl e
      | Inr num \<Rightarrow>
         (case vec_dot (rho0 rho_obs) phi of
            Inl e \<Rightarrow> Inl e
          | Inr den \<Rightarrow> Inr (d\<lparr>KL_mean := map (\<lambda>v. fdiv v den) num\<rparr>)))"

section \<open>Weighted batches\<close>

text \<open>
  The weights of \<open>max_likelihood\<close> are an array of numbers or a boolean mask. In arithmetic
  a mask counts as 1 and 0.
\<close>

datatype weights = BoolW "bool list" | NumW vec

fun as_float :: "weights \<Rightarrow> vec" where
  "as_float (BoolW bs) = map (\<lambda>b. if b then Fin 1 else Fin 0) bs"
| "as_float (NumW w) = w"

text \<open>
  \<open>weights[:, nax] * X\<close>: the column of weights against the rows of \<open>X\<close>, with numpy's
  broadcasting when one of the two has a single row.
\<close>

definition scale_rows :: "vec \<Rightarrow> matrix \<Rightarrow> error + matrix" where
  "scale_rows w X =
     (if length w = nrows X then
        Inr \<lparr>ncols = ncols X, rows = map2 (\<lambda>wi r. map (fmul wi) r) w (rows X)\<rparr>
      else if length w = 1 then
        Inr \<lparr>ncols = ncols X, rows = map (map (fmul (hd w))) (rows X)\<rparr>
      else if nrows X = 1 then
        Inr \<lparr>ncols = ncols X, rows = map (\<lambda>wi. map (fmul wi) (hd (rows X))) w\<rparr>
      else Inl ValueError)"

text \<open>\<open>X - mean\<close>: the vector is subtracted from every row, again with broadcasting.\<close>

definition sub_row :: "matrix \<Rightarrow> vec \<Rightarrow> error + matrix" where
  "sub_row X m =
     (if ncols X = length m then
        Inr \<lparr>ncols = ncols X, rows = map (\<lambda>r. map2 fsub r m) (rows X)\<rparr>
      else if length m = 1 then
        Inr \<lparr>ncols = ncols X, rows = map (map (\<lambda>v. fsub v (hd m))) (rows X)\<rparr>
      else if ncols X = 1 then
        Inr \<lparr>ncols = length m, rows = map (\<lambda>r. map (fsub (hd r)) m) (rows X)\<rparr>
      else Inl ValueError)"

text \<open>\<open>np.sum(M, axis=0)\<close>, the sums of the columns, and \<open>np.sum(M * M, axis=1)\<close>.\<close>

definition sum_axis0 :: "matrix \<Rightarrow> vec" where
  "sum_axis0 M = map (\<lambda>j. fsum (map (\<lambda>r. r ! j) (rows M))) [0..<ncols M]"

definition sq_norms :: "matrix \<Rightarrow> vec" where
  "sq_norms M = map (\<lambda>r. fsum (map (\<lambda>v. fmul v v) r)) (rows M)"

text \<open>\<open>A.T.dot(B)\<close> for two arrays with the same number of rows.\<close>

definition tdot :: "matrix \<Rightarrow> matrix \<Rightarrow> error + matrix" where
  "tdot A B =
     (if nrows A \<noteq> nrows B then Inl ValueError
      else Inr \<lparr>ncols = ncols B,
                rows = map (\<lambda>j. map (\<lambda>k. fsum (map2 (\<lambda>ra rb. fmul (ra ! j) (rb ! k)) (rows A) (rows B)))
                                     [0..<ncols B])
                           [0..<ncols A]\<rparr>)"

section \<open>Gaussian\<close>

record gaussian =
  Gaussian_mean :: vec
  Gaussian_cov :: matrix

text \<open>
  \<open>Gaussian.max_likelihood(X, weights)\<close>:
  \<open>mean = np.sum(weights[:,nax] * X, axis=0) / np.sum(weights)\<close>, \<open>diff = X - mean\<close>,
  \<open>cov = diff.T.dot(weights[:,nax] * diff) / np.sum(weights)\<close>.
\<close>

definition Gaussian_max_likelihood :: "gaussian \<Rightarrow> matrix \<Rightarrow> weights \<Rightarrow> error + gaussian" where
  "Gaussian_max_likelihood g X weights =
     (let w = as_float weights in
      case scale_rows w X of
        Inl e \<Rightarrow> Inl e
      | Inr WX \<Rightarrow>
         let mean' = map (\<lambda>v. fdiv v (fsum w)) (sum_axis0 WX) in
         (case sub_row X mean' of
            Inl e \<Rightarrow> Inl e
          | Inr diff \<Rightarrow>
             (case scale_rows w diff of
                Inl e \<Rightarrow> Inl e
              | Inr wdiff \<Rightarrow>
                 (case tdot diff wdiff of
                    Inl e \<Rightarrow> Inl e
                  | Inr S \<Rightarrow>
                      Inr (g\<lparr>Gaussian_mean := mean',
                             Gaussian_cov := \<lparr>ncols = ncols S,
                                              rows = map (map (\<lambda>v. fdiv v (fsum w))) (rows S)\<rparr>\<rparr>)))))"

text \<open>
  \<open>Gaussian.pdf(X, normalized)\<close>. The determinant and the inverse come from
  \<open>numpy.linalg\<close>, which is not part of the program: they are parameters here. With
  \<open>q = np.diag(diff.dot(inv(cov)).dot(diff.T))\<close> the density is \<open>np.exp(-0.5 * q)\<close>,
  multiplied by \<open>1. / np.sqrt((2*np.pi)**d * det(cov))\<close> when \<open>normalized\<close>.
\<close>

definition transpose_m :: "matrix \<Rightarrow> matrix" where
  "transpose_m A = \<lparr>ncols = nrows A, rows = map (\<lambda>j. map (\<lambda>r. r ! j) (rows A)) [0..<ncols A]\<rparr>"

definition diag_m :: "matrix \<Rightarrow> vec" where
  "diag_m B = map (\<lambda>i. rows B ! i ! i) [0..<min (nrows B) (ncols B)]"

definition mahalanobis :: "(matrix \<Rightarrow> error + matrix) \<Rightarrow> matrix \<Rightarrow> matrix \<Rightarrow> error + vec" where
  "mahalanobis inv_fn c diff =
     (case inv_fn c of
        Inl e \<Rightarrow> Inl e
      | Inr P \<Rightarrow>
         (case mat_mat diff P of
            Inl e \<Rightarrow> Inl e
          | Inr A \<Rightarrow>
             (case mat_mat A (transpose_m diff) of
                Inl e \<Rightarrow> Inl e
              | Inr B \<Rightarrow> Inr (diag_m B))))"

definition Gaussian_pdf ::
    "(matrix \<Rightarrow> error + fnum) \<Rightarrow> (matrix \<Rightarrow> error + matrix) \<Rightarrow> gaussian \<Rightarrow> matrix \<Rightarrow> bool
      \<Rightarrow> error + vec" where
  "Gaussian_pdf det_fn inv_fn g X normalized =
     (let d = length (Gaussian_mean g) in
      case sub_row X (Gaussian_mean g) of
        Inl e \<Rightarrow> Inl e
      | Inr diff \<Rightarrow>
         (if normalized then
            (case det_fn (Gaussian_cov g) of
               Inl e \<Rightarrow> Inl e
             | Inr dt \<Rightarrow>
                (case mahalanobis inv_fn (Gaussian_cov g) diff of
                   Inl e \<Rightarrow> Inl e
                 | Inr q \<Rightarrow>
                     Inr (map (\<lambda>v. fmul (fdiv (Fin 1) (fsqrt (fmul (fpow (Fin (2 * pi)) d) dt)))
                                         (fexp (fmul (Fin (- (1/2))) v)))
                              q)))
          else
            (case mahalanobis inv_fn (Gaussian_cov g) diff of
               Inl e \<Rightarrow> Inl e
             | Inr q \<Rightarrow> Inr (map (\<lambda>v. fexp (fmul (Fin (- (1/2))) v)) q))))"

section \<open>SquareDistance\<close>

record square_distance =
  SquareDistance_mean :: vec
  SquareDistance_sigma2 :: "fnum option"

definition SquareDistance_dim :: "square_distance \<Rightarrow> nat" where
  "SquareDistance_dim d = length (SquareDistance_mean d)"

text \<open>
  The property \<open>cov\<close> returns \<open>self.sigma2 * np.eye(2)\<close>; \<open>None * array\<close> raises TypeError.
\<close>

definition SquareDistance_cov :: "square_distance \<Rightarrow> error + matrix" where
  "SquareDistance_cov d =
     (case SquareDistance_sigma2 d of
        None \<Rightarrow> Inl TypeError
      | Some s \<Rightarrow> Inr \<lparr>ncols = ncols (eye 2), rows = map (map (fmul s)) (rows (eye 2))\<rparr>)"

text \<open>
  \<open>SquareDistance.max_likelihood(X, weights)\<close>. With a boolean mask the mean is
  \<open>X[weights,:].mean(axis=0)\<close>: the mask must have one entry for each row (IndexError
  otherwise) and the sum of the selected rows is divided by their number. Otherwise it is the
  weighted mean as for the Gaussian. When \<open>sigma2\<close> is set it becomes
  \<open>0.5 * dists.dot(weights) / np.sum(weights)\<close>.
\<close>

definition SquareDistance_max_likelihood ::
    "square_distance \<Rightarrow> matrix \<Rightarrow> weights \<Rightarrow> error + square_distance" where
  "SquareDistance_max_likelihood d X weights =
     (case (case weights of
              BoolW bs \<Rightarrow>
                (if length bs \<noteq> nrows X then Inl IndexError
                 else let sel = map snd (filter fst (zip bs (rows X))) in
                      Inr (map (\<lambda>v. fdiv v (Fin (real (length sel))))
                               (sum_axis0 \<lparr>ncols = ncols X, rows = sel\<rparr>)))
            | NumW w \<Rightarrow>
                (case scale_rows w X of
                   Inl e \<Rightarrow> Inl e
                 | Inr WX \<Rightarrow> Inr (map (\<lambda>v. fdiv v (fsum w)) (sum_axis0 WX)))) of
        Inl e \<Rightarrow> Inl e
      | Inr mean' \<Rightarrow>
         (case SquareDistance_sigma2 d of
            None \<Rightarrow> Inr (d\<lparr>SquareDistance_mean := mean'\<rparr>)
          | Some old \<Rightarrow>
             (case sub_row X mean' of
                Inl e \<Rightarrow> Inl e
              | Inr diff \<Rightarrow>
                 (case vec_dot (sq_norms diff) (as_float weights) of
                    Inl e \<Rightarrow> Inl e
                  | Inr dw \<Rightarrow>
                      Inr (d\<lparr>SquareDistance_mean := mean',
                             SquareDistance_sigma2 :=
                               Some (fdiv (fmul (Fin (1/2)) dw) (fsum (as_float weights)))\<rparr>)))))"

text \<open>
  \<open>SquareDistance.max_likelihood(X, weights)\<close> once more, in binary64. The sum of a mask is
  the number of its True entries, an integer, which the division turns into a binary64 value.
\<close>

definition weight_sum64 :: "weights \<Rightarrow> fnum" where
  "weight_sum64 weights =
     (case weights of
        BoolW bs \<Rightarrow> rnd (Fin (real (length (filter (\<lambda>b. b) bs))))
      | NumW w \<Rightarrow> fsum64 w)"

definition SquareDistance_max_likelihood64 ::
    "square_distance \<Rightarrow> matrix \<Rightarrow> weights \<Rightarrow> error + square_distance" where
  "SquareDistance_max_likelihood64 d X weights =
     (case (case weights of
              BoolW bs \<Rightarrow>
                (if length bs \<noteq> nrows X then Inl IndexError
                 else let sel = map snd (filter fst (zip bs (rows X))) in
                      Inr (map (\<lambda>v. rdiv v (rnd (Fin (real (length sel)))))
                               (sum_axis0_64 \<lparr>ncols = ncols X, rows = sel\<rparr>)))
            | NumW w \<Rightarrow>
                (case scale_rows64 w X of
                   Inl e \<Rightarrow> Inl e
                 | Inr WX \<Rightarrow> Inr (map (\<lambda>v. rdiv v (fsum64 w)) (sum_axis0_64 WX)))) of
        Inl e \<Rightarrow> Inl e
      | Inr mean' \<Rightarrow>
         (case SquareDistance_sigma2 d of
            None \<Rightarrow> Inr (d\<lparr>SquareDistance_mean := mean'\<rparr>)
          | Some old \<Rightarrow>
             (case sub_row64 X mean' of
                Inl e \<Rightarrow> Inl e
              | Inr diff \<Rightarrow>
                 (case vec_dot64 (sq_norms64 diff) (as_float weights) of
                    Inl e \<Rightarrow> Inl e
                  | Inr dw \<Rightarrow>
                      Inr (d\<lparr>SquareDistance_mean := mean',
                             SquareDistance_sigma2 :=
                               Some (rdiv (rmul (Fin (1/2)) dw) (weight_sum64 weights))\<rparr>)))))"

text \<open>
  \<open>log_pdf\<close> and \<open>pdf\<close> start with \<open>assert self.sigma2 is not None\<close> (assertions are
  taken as executed, as they are unless the interpreter runs with \<open>-O\<close>). Then, with
  \<open>d = mean.shape[0]\<close> and \<open>dists\<close> the squared distances of the rows to the mean,
  \<open>log_pdf\<close> is \<open>- 0.5 * d * np.log(2*np.pi) - 0.5 * d * np.log(sigma2) - 0.5 * dists / sigma2\<close>
  and \<open>pdf\<close> is \<open>np.exp(-0.5 * dists / sigma2)\<close>, multiplied by
  \<open>1. / np.sqrt((2*np.pi*sigma2)**d)\<close> when \<open>normalized\<close>.
\<close>

definition SquareDistance_log_pdf :: "square_distance \<Rightarrow> matrix \<Rightarrow> error + vec" where
  "SquareDistance_log_pdf d X =
     (case SquareDistance_sigma2 d of
        None \<Rightarrow> Inl AssertionError
      | Some s \<Rightarrow>
         let n = length (SquareDistance_mean d) in
         (case sub_row X (SquareDistance_mean d) of
            Inl e \<Rightarrow> Inl e
          | Inr diff \<Rightarrow>
              Inr (map (\<lambda>dist.
                      fsub (fsub (Fin (- (1/2) * real n * ln (2 * pi)))
                                 (fmul (Fin (1/2 * real n)) (flog s)))
                           (fdiv (fmul (Fin (1/2)) dist) s))
                    (sq_norms diff))))"

definition SquareDistance_pdf :: "square_distance \<Rightarrow> matrix \<Rightarrow> bool \<Rightarrow> error + vec" where
  "SquareDistance_pdf d X normalized =
     (case SquareDistance_sigma2 d of
        None \<Rightarrow> Inl AssertionError
      | Some s \<Rightarrow>
         let n = length (SquareDistance_mean d) in
         (case sub_row X (SquareDistance_mean d) of
            Inl e \<Rightarrow> Inl e
          | Inr diff \<Rightarrow>
              (if normalized then
                 Inr (map (\<lambda>dist.
                         fmul (fdiv (Fin 1) (fsqrt (fpow (fmul (Fin (2 * pi)) s) n)))
                              (fexp (fdiv (fmul (Fin (- (1/2))) dist) s)))
                       (sq_norms diff))
               else
                 Inr (map (\<lambda>dist. fexp (fdiv (fmul (Fin (- (1/2))) dist) s)) (sq_norms diff)))))"

section \<open>Predicates of the statements\<close>

text \<open>
  A non-negative entry is a finite number that is at least 0; a learning rate is a finite
  number in \<open>(0, 1]\<close>.
\<close>

definition nonneg :: "fnum \<Rightarrow> bool" where
  "nonneg v = (case v of Fin a \<Rightarrow> 0 \<le> a | _ \<Rightarrow> False)"

definition nonneg_vec :: "vec \<Rightarrow> bool" where
  "nonneg_vec v = list_all nonneg v"

definition nonneg_mat :: "matrix \<Rightarrow> bool" where
  "nonneg_mat M = list_all nonneg_vec (rows M)"

definition step_ok :: "fnum \<Rightarrow> bool" where
  "step_ok st = (case st of Fin t \<Rightarrow> 0 < t \<and> t \<le> 1 | _ \<Rightarrow> False)"

definition nonneg_stats :: "kl_stats \<Rightarrow> bool" where
  "nonneg_stats s = (nonneg_vec (rho0 s) \<and> nonneg_mat (rho s))"

definition nonneg_update :: "vec \<times> matrix \<times> fnum \<Rightarrow> bool" where
  "nonneg_update u = (case u of (x, r, step) \<Rightarrow>
       nonneg_vec x \<and> wf_matrix r \<and> nonneg_mat r \<and> step_ok step)"

text \<open>
  An entry that is not negative: a number that is at least 0, plus infinity, or
  not-a-number. This is what is left of "non-negative" once a result can overflow.
\<close>

definition not_negative :: "fnum \<Rightarrow> bool" where
  "not_negative v = (case v of Fin a \<Rightarrow> 0 \<le> a | PInf \<Rightarrow> True | NInf \<Rightarrow> False | NaN \<Rightarrow> True)"

definition no_negative_vec :: "vec \<Rightarrow> bool" where
  "no_negative_vec v = list_all not_negative v"

definition no_negative_mat :: "matrix \<Rightarrow> bool" where
  "no_negative_mat M = list_all no_negative_vec (rows M)"

definition no_negative_stats :: "kl_stats \<Rightarrow> bool" where
  "no_negative_stats s = (no_negative_vec (rho0 s) \<and> no_negative_mat (rho s))"

definition no_negative_update :: "vec \<times> matrix \<times> fnum \<Rightarrow> bool" where
  "no_negative_update u = (case u of (x, r, step) \<Rightarrow>
       no_negative_vec x \<and> wf_matrix r \<and> no_negative_mat r \<and> step_ok step)"

text \<open>A probability vector: finite non-negative entries that sum to 1.\<close>

definition prob_vector :: "vec \<Rightarrow> bool" where
  "prob_vector m = (list_all nonneg m \<and> fsum m = Fin 1)"

text \<open>
  The isotropic covariance of the specification: \<open>sigma2 \<cdot> I\<close> of size \<open>n\<close> by \<open>n\<close>.
\<close>

definition isotropic_cov :: "nat \<Rightarrow> fnum \<Rightarrow> matrix" where
  "isotropic_cov n s = \<lparr>ncols = n, rows = map (map (fmul s)) (rows (eye n))\<rparr>"

text \<open>
  The sample statistics of the specification: the unweighted mean of the rows of \<open>X\<close>, and
  the biased covariance \<open>\<Sum>\<^sub>i (x\<^sub>i - mean)(x\<^sub>i - mean)\<^sup>T / N\<close>.
\<close>

definition sample_mean :: "matrix \<Rightarrow> vec" where
  "sample_mean X =
     map (\<lambda>j. fdiv (fsum (map (\<lambda>r. r ! j) (rows X))) (Fin (real (nrows X)))) [0..<ncols X]"


text \<open>The two values a sum of products with zero can take: zero, or not-a-number.\<close>

definition zero_or_nan :: "fnum \<Rightarrow> bool" where
  "zero_or_nan v = (v = Fin 0 \<or> v = NaN)"

text \<open>
  The invariant of the specification for \<open>SquareDistance\<close>: \<open>sigma2\<close> is \<open>None\<close> or
  \<open>sigma2 > 0\<close> (with the comparison of the arithmetic: not-a-number is not positive).
  Weights are good for a batch of \<open>n\<close> rows when there are \<open>n\<close> of them, none negative and
  not all zero; a batch is finite when all its entries are.
\<close>

definition fpositive :: "fnum \<Rightarrow> bool" where
  "fpositive v = (case v of Fin a \<Rightarrow> 0 < a | PInf \<Rightarrow> True | _ \<Rightarrow> False)"

definition sd_invariant :: "square_distance \<Rightarrow> bool" where
  "sd_invariant d = (case SquareDistance_sigma2 d of None \<Rightarrow> True | Some s \<Rightarrow> fpositive s)"

definition good_weights :: "nat \<Rightarrow> weights \<Rightarrow> bool" where
  "good_weights n weights =
     (case weights of
        BoolW bs \<Rightarrow> length bs = n \<and> list_ex (\<lambda>b. b) bs
      | NumW w \<Rightarrow> length w = n \<and> list_all nonneg w \<and> list_ex (\<lambda>v. v \<noteq> Fin 0) w)"

section \<open>Properties\<close>

subsection \<open>The constructor of \<open>KLSufficientStatistics\<close>\<close>

lemma norm_index_nonneg:
  "0 \<le> i \<Longrightarrow> i < int n \<Longrightarrow> norm_index n i = Inr (nat i)"
  by (simp add: norm_index_def)

lemma map2_replicate_update:
  assumes "j < k"
  shows "map (\<lambda>r. r ! j) (map2 (\<lambda>r v. r[i := v]) (replicate (length x) (replicate k z)) x)
     = (if i = j then x else replicate (length x) z)"
proof (rule nth_equalityI)
  show "length (map (\<lambda>r. r ! j) (map2 (\<lambda>r v. r[i := v]) (replicate (length x) (replicate k z)) x))
      = length (if i = j then x else replicate (length x) z)"
    by simp
next
  fix n
  assume "n < length (map (\<lambda>r. r ! j) (map2 (\<lambda>r v. r[i := v]) (replicate (length x) (replicate k z)) x))"
  then have n: "n < length x" by simp
  then show "map (\<lambda>r. r ! j) (map2 (\<lambda>r v. r[i := v]) (replicate (length x) (replicate k z)) x) ! n
      = (if i = j then x else replicate (length x) z) ! n"
    using assms by (auto simp: nth_list_update)
qed

text \<open>
  C6. For every vector \<open>x\<close>, cluster index \<open>0 \<le> cluster_id < K\<close> and \<open>size = len(x)\<close>, the
  constructor succeeds, and in the state it builds column \<open>cluster_id\<close> of \<open>rho\<close> is \<open>x\<close>
  unchanged, every other column of \<open>rho\<close> is the zero vector, and \<open>rho0\<close> is the zero vector
  of length \<open>K\<close>.
\<close>

theorem init_roundtrip:
  assumes "0 \<le> cid" and "cid < k" and "sz = int (length x)"
  shows "\<exists>s. KLSufficientStatistics_init x cid k sz = Inr s
           \<and> get_col (rho s) cid = Inr x
           \<and> (\<forall>j. 0 \<le> j \<and> j < k \<and> j \<noteq> cid \<longrightarrow> get_col (rho s) j = Inr (zeros (length x)))
           \<and> rho0 s = zeros (nat k)"
proof -
  have ni: "norm_index (nat k) cid = Inr (nat cid)"
    using assms by (simp add: norm_index_nonneg)
  have other: "get_col \<lparr>ncols = nat k,
        rows = map2 (\<lambda>r v. r[nat cid := v]) (replicate (length x) (replicate (nat k) (Fin 0))) x\<rparr> j
      = Inr (replicate (length x) (Fin 0))"
    if "0 \<le> j" "j < k" "j \<noteq> cid" for j
  proof -
    have "norm_index (nat k) j = Inr (nat j)"
      using that by (simp add: norm_index_nonneg)
    moreover have "nat cid \<noteq> nat j" "nat j < nat k"
      using that assms by auto
    ultimately show ?thesis
      by (simp add: get_col_def map2_replicate_update del: map_map)
  qed
  have own: "get_col \<lparr>ncols = nat k,
        rows = map2 (\<lambda>r v. r[nat cid := v]) (replicate (length x) (replicate (nat k) (Fin 0))) x\<rparr> cid
      = Inr x"
    using assms ni by (simp add: get_col_def map2_replicate_update del: map_map)
  show ?thesis
    using assms ni own other
    by (simp add: KLSufficientStatistics_init_def broadcast_to_def zeros_def zeros2_def)
qed

theorem init_roundtrip_witness:
  "\<exists>s. KLSufficientStatistics_init [Fin 3, Fin 5, Fin 7] 2 4 3 = Inr s
       \<and> get_col (rho s) 2 = Inr [Fin 3, Fin 5, Fin 7]
       \<and> (\<forall>j. 0 \<le> j \<and> j < 4 \<and> j \<noteq> 2 \<longrightarrow> get_col (rho s) j = Inr (zeros (length [Fin 3, Fin 5, Fin (7::real)])))
       \<and> rho0 s = zeros (nat 4)"
  using init_roundtrip [of 2 4 3 "[Fin 3, Fin 5, Fin 7]"] by simp

subsection \<open>Basic facts\<close>

lemma fsum_Fin: "fsum (map Fin xs) = Fin (sum_list xs)"
  by (induction xs) simp_all

lemma nonneg_Fin [simp]: "nonneg (Fin a) = (0 \<le> a)"
  by (simp add: nonneg_def)

lemma norm_index_less: "norm_index n i = Inr j \<Longrightarrow> j < n"
  by (auto simp: norm_index_def Let_def split: if_splits)

lemma map2_replicate: "length xs = n \<Longrightarrow> map2 f (replicate n c) xs = map (f c) xs"
  by (induction xs arbitrary: n) auto

lemma map2_same: "map2 f xs xs = map (\<lambda>x. f x x) xs"
  by (induction xs) simp_all

subsection \<open>\<open>online_max_likelihood\<close> on fresh statistics\<close>

lemma fdiv_zero_not_fin: "\<not> is_fin (fdiv v (Fin 0))"
  by (cases v) simp_all

lemma dot_zeros: "length p = n \<Longrightarrow> fsum (map2 fmul (replicate n (Fin 0)) (map Fin p)) = Fin 0"
  by (induction p arbitrary: n) auto

lemma init_Inr:
  assumes "KLSufficientStatistics_init x cid k sz = Inr st"
  shows "rho0 st = zeros (nat k) \<and> ncols (rho st) = nat k \<and> cluster_id st = cid"
  using assms
  by (auto simp: KLSufficientStatistics_init_def split: if_splits sum.splits)

lemma not_fin_not_prob:
  assumes "list_all (\<lambda>v. \<not> is_fin v) m"
  shows "\<not> prob_vector m"
proof (cases m)
  case Nil
  then show ?thesis by (simp add: prob_vector_def)
next
  case (Cons v vs)
  with assms have "\<not> is_fin v" by simp
  then have "\<not> nonneg v" by (cases v) (simp_all add: nonneg_def)
  with Cons show ?thesis by (simp add: prob_vector_def)
qed

text \<open>
  C9. On statistics fresh from the constructor (or from \<open>new_sufficient_statistics\<close>), before
  any \<open>online_update\<close>, and for every mixing vector \<open>phi\<close> of \<open>K\<close> finite numbers, the
  denominator \<open>rho0.dot(phi)\<close> of \<open>online_max_likelihood\<close> is exactly 0; the call returns, and
  the mean it stores is the numerator \<open>rho.dot(phi)\<close> divided, entry by entry, by that zero:
  every entry is an infinity or not-a-number, and the mean is not a probability vector.
\<close>

theorem fresh_stats_division_by_zero:
  assumes "KLSufficientStatistics_init x cid k sz = Inr st
           \<or> KL_new_sufficient_statistics d0 x cid k = Inr st"
    and "length p = nat k"
  shows "vec_dot (rho0 st) (map Fin p) = Inr (Fin 0)
       \<and> (\<exists>num. mat_vec (rho st) (map Fin p) = Inr num
              \<and> KL_online_max_likelihood d st (map Fin p)
                   = Inr (d\<lparr>KL_mean := map (\<lambda>v. fdiv v (Fin 0)) num\<rparr>)
              \<and> list_all (\<lambda>v. \<not> is_fin v) (map (\<lambda>v. fdiv v (Fin 0)) num)
              \<and> \<not> prob_vector (map (\<lambda>v. fdiv v (Fin 0)) num))"
proof -
  from assms(1) obtain sz' where "KLSufficientStatistics_init x cid k sz' = Inr st"
    by (auto simp: KL_new_sufficient_statistics_def)
  then have st: "rho0 st = zeros (nat k)" "ncols (rho st) = nat k"
    by (simp_all add: init_Inr)
  have den: "vec_dot (rho0 st) (map Fin p) = Inr (Fin 0)"
    using st assms(2) by (simp add: vec_dot_def zeros_def dot_zeros)
  let ?num = "map (\<lambda>r. fsum (map2 fmul r (map Fin p))) (rows (rho st))"
  have num: "mat_vec (rho st) (map Fin p) = Inr ?num"
    using st assms(2) by (simp add: mat_vec_def)
  have res: "KL_online_max_likelihood d st (map Fin p)
      = Inr (d\<lparr>KL_mean := map (\<lambda>v. fdiv v (Fin 0)) ?num\<rparr>)"
    by (simp add: KL_online_max_likelihood_def num den)
  have nf: "list_all (\<lambda>v. \<not> is_fin v) (map (\<lambda>v. fdiv v (Fin 0)) ?num)"
    by (simp add: list_all_iff fdiv_zero_not_fin)
  from den num res nf not_fin_not_prob [OF nf] show ?thesis
    by blast
qed

theorem fresh_stats_division_by_zero_witness:
  "KLSufficientStatistics_init [Fin 3, Fin 0, Fin (- 5)] 1 2 3
     = Inr \<lparr>cluster_id = 1, K = 2, rho0 = [Fin 0, Fin 0],
            rho = \<lparr>ncols = 2, rows = [[Fin 0, Fin 3], [Fin 0, Fin 0], [Fin 0, Fin (- 5)]]\<rparr>\<rparr>
   \<and> vec_dot [Fin 0, Fin 0] (map Fin [1/4, 3/4]) = Inr (Fin 0)
   \<and> mat_vec \<lparr>ncols = 2, rows = [[Fin 0, Fin 3], [Fin 0, Fin 0], [Fin 0, Fin (- 5)]]\<rparr>
        (map Fin [1/4, 3/4]) = Inr [Fin (9/4), Fin 0, Fin (- (15/4))]
   \<and> KL_online_max_likelihood \<lparr>KL_mean = [Fin (1/2), Fin (1/2)]\<rparr>
        \<lparr>cluster_id = 1, K = 2, rho0 = [Fin 0, Fin 0],
         rho = \<lparr>ncols = 2, rows = [[Fin 0, Fin 3], [Fin 0, Fin 0], [Fin 0, Fin (- 5)]]\<rparr>\<rparr>
        (map Fin [1/4, 3/4])
      = Inr \<lparr>KL_mean = [PInf, NaN, NInf]\<rparr>
   \<and> \<not> prob_vector [PInf, NaN, NInf]"
proof -
  let ?st = "\<lparr>cluster_id = 1, K = 2, rho0 = [Fin 0, Fin 0],
              rho = \<lparr>ncols = 2, rows = [[Fin 0, Fin 3], [Fin 0, Fin 0], [Fin 0, Fin (- 5)]]\<rparr>\<rparr>"
  have i: "KLSufficientStatistics_init [Fin 3, Fin 0, Fin (- 5)] 1 2 3 = Inr ?st"
    by (simp add: KLSufficientStatistics_init_def norm_index_def broadcast_to_def zeros_def
         zeros2_def numeral_2_eq_2 numeral_3_eq_3)
  have n: "mat_vec (rho ?st) (map Fin [1/4, 3/4]) = Inr [Fin (9/4), Fin 0, Fin (- (15/4))]"
    by (simp add: mat_vec_def)
  from fresh_stats_division_by_zero [of "[Fin 3, Fin 0, Fin (- 5)]" 1 2 3 ?st
         "\<lparr>KL_mean = [Fin (1/2), Fin (1/2)]\<rparr>" "[1/4, 3/4]"
         "\<lparr>KL_mean = [Fin (1/2), Fin (1/2)]\<rparr>"] i n
  show ?thesis
    by auto
qed

subsection \<open>The covariance of \<open>SquareDistance\<close>\<close>

lemma SquareDistance_cov_is_2x2:
  "SquareDistance_sigma2 d = Some s \<Longrightarrow> SquareDistance_cov d = Inr (isotropic_cov 2 s)"
  by (simp add: SquareDistance_cov_def isotropic_cov_def eye_def)

text \<open>
  C1. The \<open>cov\<close> property multiplies \<open>sigma2\<close> with \<open>np.eye(2)\<close>, not with the identity of
  the dimension of the mean: for a mean of dimension 3 and \<open>sigma2 = 1\<close> it is the 2-by-2
  identity, which is not the 3-by-3 matrix \<open>sigma2 \<cdot> I\<close>.
\<close>

theorem cov_ignores_dimension:
  "SquareDistance_dim \<lparr>SquareDistance_mean = [Fin 0, Fin 0, Fin 0], SquareDistance_sigma2 = Some (Fin 1)\<rparr> = 3
   \<and> SquareDistance_cov \<lparr>SquareDistance_mean = [Fin 0, Fin 0, Fin 0], SquareDistance_sigma2 = Some (Fin 1)\<rparr>
       = Inr \<lparr>ncols = 2, rows = [[Fin 1, Fin 0], [Fin 0, Fin 1]]\<rparr>
   \<and> isotropic_cov 3 (Fin 1)
       = \<lparr>ncols = 3, rows = [[Fin 1, Fin 0, Fin 0], [Fin 0, Fin 1, Fin 0], [Fin 0, Fin 0, Fin 1]]\<rparr>
   \<and> SquareDistance_cov \<lparr>SquareDistance_mean = [Fin 0, Fin 0, Fin 0], SquareDistance_sigma2 = Some (Fin 1)\<rparr>
       \<noteq> Inr (isotropic_cov 3 (Fin 1))"
  by (simp add: SquareDistance_dim_def SquareDistance_cov_def isotropic_cov_def eye_def upt_rec)

subsection \<open>The precondition of \<open>SquareDistance.log_pdf\<close> and \<open>pdf\<close>\<close>

lemma sub_row_not_assertion: "sub_row X m \<noteq> Inl AssertionError"
  by (simp add: sub_row_def)

text \<open>
  C7. When \<open>sigma2\<close> is unset, \<open>log_pdf(X)\<close> and \<open>pdf(X, normalized)\<close> fail with the
  assertion error, for every \<open>X\<close>; when \<open>sigma2\<close> is set, neither of them fails with it.
\<close>

theorem pdf_precondition:
  "(SquareDistance_sigma2 d = None \<longrightarrow>
       SquareDistance_log_pdf d X = Inl AssertionError
     \<and> SquareDistance_pdf d X normalized = Inl AssertionError)
   \<and> (SquareDistance_sigma2 d \<noteq> None \<longrightarrow>
       SquareDistance_log_pdf d X \<noteq> Inl AssertionError
     \<and> SquareDistance_pdf d X normalized \<noteq> Inl AssertionError)"
  using sub_row_not_assertion [of X "SquareDistance_mean d"]
  by (auto simp: SquareDistance_log_pdf_def SquareDistance_pdf_def Let_def
           split: sum.splits if_splits)

theorem pdf_precondition_witness:
  "SquareDistance_log_pdf \<lparr>SquareDistance_mean = [Fin 0, Fin 0], SquareDistance_sigma2 = None\<rparr>
      \<lparr>ncols = 2, rows = [[Fin 1, Fin 0]]\<rparr> = Inl AssertionError
   \<and> SquareDistance_pdf \<lparr>SquareDistance_mean = [Fin 0, Fin 0], SquareDistance_sigma2 = None\<rparr>
      \<lparr>ncols = 2, rows = [[Fin 1, Fin 0]]\<rparr> True = Inl AssertionError
   \<and> SquareDistance_log_pdf \<lparr>SquareDistance_mean = [Fin 0, Fin 0], SquareDistance_sigma2 = Some (Fin 1)\<rparr>
      \<lparr>ncols = 2, rows = [[Fin 1, Fin 0]]\<rparr> \<noteq> Inl AssertionError
   \<and> SquareDistance_pdf \<lparr>SquareDistance_mean = [Fin 0, Fin 0], SquareDistance_sigma2 = Some (Fin 1)\<rparr>
      \<lparr>ncols = 2, rows = [[Fin 1, Fin 0]]\<rparr> True \<noteq> Inl AssertionError"
  using pdf_precondition [of "\<lparr>SquareDistance_mean = [Fin 0, Fin 0], SquareDistance_sigma2 = None\<rparr>"
          "\<lparr>ncols = 2, rows = [[Fin 1, Fin 0]]\<rparr>" True]
        pdf_precondition [of "\<lparr>SquareDistance_mean = [Fin 0, Fin 0], SquareDistance_sigma2 = Some (Fin 1)\<rparr>"
          "\<lparr>ncols = 2, rows = [[Fin 1, Fin 0]]\<rparr>" True]
  by simp

lemma log_pdf_example:
  "SquareDistance_log_pdf \<lparr>SquareDistance_mean = [Fin 0, Fin 0], SquareDistance_sigma2 = Some (Fin 1)\<rparr>
      \<lparr>ncols = 2, rows = [[Fin 1, Fin 0]]\<rparr> = Inr [Fin (- ln (2 * pi) - 1/2)]"
  by (simp add: SquareDistance_log_pdf_def sub_row_def sq_norms_def fsub_def)

subsection \<open>\<open>KL.pdf\<close>\<close>

lemma flog_pos: "list_all (\<lambda>v. 0 < v) m \<Longrightarrow> map flog (map Fin m) = map Fin (map ln m)"
  by (induction m) auto

lemma map2_fmul_Fin: "map2 fmul (map Fin r) (map Fin q) = map Fin (map2 (*) r q)"
proof (induction r arbitrary: q)
  case Nil
  then show ?case by simp
next
  case (Cons a r)
  then show ?case by (cases q) simp_all
qed

lemma dot_Fin: "fsum (map2 fmul (map Fin r) (map Fin q)) = Fin (sum_list (map2 (*) r q))"
  by (simp only: map2_fmul_Fin fsum_Fin)

lemma mat_vec_Fin:
  assumes "rows X = map (map Fin) xs" and "ncols X = length q"
  shows "mat_vec X (map Fin q) = Inr (map (\<lambda>r. Fin (sum_list (map2 (*) r q))) xs)"
proof -
  have "map (\<lambda>r. fsum (map2 fmul r (map Fin q))) (map (map Fin) xs)
      = map (\<lambda>r. Fin (sum_list (map2 (*) r q))) xs"
    by (induction xs) (simp_all add: dot_Fin)
  with assms show ?thesis
    by (simp add: mat_vec_def)
qed

text \<open>
  C10. \<open>KL.pdf(X, True)\<close> and \<open>KL.pdf(X, False)\<close> are the same, for every \<open>X\<close>; and for a
  mean of strictly positive numbers and finite \<open>X\<close> with as many columns as the mean has
  entries, the value is, row by row, \<open>exp(x \<cdot> log(mean))\<close>.
\<close>

theorem KL_pdf_ignores_normalized:
  "KL_pdf d X True = KL_pdf d X False
   \<and> (KL_mean d = map Fin m \<and> list_all (\<lambda>v. 0 < v) m
        \<and> rows X = map (map Fin) xs \<and> ncols X = length m
      \<longrightarrow> KL_pdf d X normalized = Inr (map (\<lambda>r. Fin (exp (sum_list (map2 (*) r (map ln m))))) xs))"
proof -
  have "KL_pdf d X normalized = Inr (map (\<lambda>r. Fin (exp (sum_list (map2 (*) r (map ln m))))) xs)"
    if "KL_mean d = map Fin m" "list_all (\<lambda>v. 0 < v) m" "rows X = map (map Fin) xs"
       "ncols X = length m"
  proof -
    from that have "mat_vec X (map flog (KL_mean d))
        = Inr (map (\<lambda>r. Fin (sum_list (map2 (*) r (map ln m)))) xs)"
      by (simp only: flog_pos mat_vec_Fin length_map)
    then show ?thesis
      by (simp add: KL_pdf_def comp_def)
  qed
  then show ?thesis
    by (simp add: KL_pdf_def)
qed

theorem KL_pdf_ignores_normalized_witness:
  "KL_pdf \<lparr>KL_mean = [Fin (1/4), Fin (3/4)]\<rparr> \<lparr>ncols = 2, rows = [[Fin 1, Fin 0], [Fin 0, Fin 2]]\<rparr> True
     = Inr [Fin (exp (ln (1/4))), Fin (exp (2 * ln (3/4)))]
   \<and> KL_pdf \<lparr>KL_mean = [Fin (1/4), Fin (3/4)]\<rparr> \<lparr>ncols = 2, rows = [[Fin 1, Fin 0], [Fin 0, Fin 2]]\<rparr> False
     = Inr [Fin (exp (ln (1/4))), Fin (exp (2 * ln (3/4)))]"
  using KL_pdf_ignores_normalized [of "\<lparr>KL_mean = [Fin (1/4), Fin (3/4)]\<rparr>"
          "\<lparr>ncols = 2, rows = [[Fin 1, Fin 0], [Fin 0, Fin 2]]\<rparr>" "[1/4, 3/4]"
          "[[1, 0], [0, 2]]" True]
        KL_pdf_ignores_normalized [of "\<lparr>KL_mean = [Fin (1/4), Fin (3/4)]\<rparr>"
          "\<lparr>ncols = 2, rows = [[Fin 1, Fin 0], [Fin 0, Fin 2]]\<rparr>" "[1/4, 3/4]"
          "[[1, 0], [0, 2]]" False]
  by simp

text \<open>
  For comparison, \<open>Gaussian.pdf\<close> does read \<open>normalized\<close>: for the standard normal in one
  dimension (whose covariance has determinant 1 and is its own inverse) the density at the
  mean is \<open>1 / sqrt(2 \<pi>)\<close> when normalized and 1 when not.
\<close>

lemma Gaussian_pdf_normalized_matters:
  "Gaussian_pdf (\<lambda>M. Inr (Fin 1)) (\<lambda>M. Inr M)
      \<lparr>Gaussian_mean = [Fin 0], Gaussian_cov = \<lparr>ncols = 1, rows = [[Fin 1]]\<rparr>\<rparr>
      \<lparr>ncols = 1, rows = [[Fin 0]]\<rparr> True = Inr [Fin (1 / sqrt (2 * pi))]
   \<and> Gaussian_pdf (\<lambda>M. Inr (Fin 1)) (\<lambda>M. Inr M)
      \<lparr>Gaussian_mean = [Fin 0], Gaussian_cov = \<lparr>ncols = 1, rows = [[Fin 1]]\<rparr>\<rparr>
      \<lparr>ncols = 1, rows = [[Fin 0]]\<rparr> False = Inr [Fin 1]
   \<and> 1 / sqrt (2 * pi) \<noteq> 1"
proof -
  have "sqrt (2 * pi) \<noteq> 1"
    using pi_ge_two by simp
  then show ?thesis
    by (simp add: Gaussian_pdf_def mahalanobis_def sub_row_def mat_mat_def transpose_m_def
          diag_m_def dot_col_def nrows_def fsub_def Let_def)
qed

subsection \<open>\<open>Gaussian.max_likelihood\<close> with unit weights\<close>

lemma fmul_one [simp]: "fmul (Fin 1) v = v"
  by (cases v) simp_all


lemma map_fmul_one [simp]: "map (fmul (Fin 1)) r = r"
  by (induction r) simp_all

lemma map_map_fmul_one [simp]: "map (map (fmul (Fin 1))) rs = rs"
  by (induction rs) simp_all



lemma length_sample_mean [simp]: "length (sample_mean X) = ncols X"
  by (simp add: sample_mean_def)






subsection \<open>\<open>max_likelihood\<close> with weights that are all zero\<close>

lemma zn_fmul_zero: "zero_or_nan (fmul (Fin 0) v)"
  by (cases v) (simp_all add: zero_or_nan_def)

lemma zn_fmul_zero_right: "zero_or_nan v \<Longrightarrow> zero_or_nan (fmul v (Fin 0))"
  by (auto simp: zero_or_nan_def)

lemma zn_fmul_half: "zero_or_nan v \<Longrightarrow> zero_or_nan (fmul (Fin (1/2)) v)"
  by (auto simp: zero_or_nan_def)

lemma zn_fadd: "zero_or_nan a \<Longrightarrow> zero_or_nan b \<Longrightarrow> zero_or_nan (fadd a b)"
  by (auto simp: zero_or_nan_def)

lemma zn_fsum: "list_all zero_or_nan vs \<Longrightarrow> zero_or_nan (fsum vs)"
  by (induction vs) (auto simp: zero_or_nan_def)

lemma zn_fdiv_zero: "zero_or_nan v \<Longrightarrow> fdiv v (Fin 0) = NaN"
  by (auto simp: zero_or_nan_def)

lemma fsum_zeros: "fsum (replicate n (Fin 0)) = Fin 0"
  by (induction n) simp_all

lemma fsub_nan [simp]: "fsub v NaN = NaN"
  by (cases v) (simp_all add: fsub_def)

lemma map2_fsub_nan: "length r = n \<Longrightarrow> map2 fsub r (replicate n NaN) = replicate n NaN"
  by (induction r arbitrary: n) auto

lemma zero_weights_mean:
  assumes "wf_matrix X"
  shows "map (\<lambda>v. fdiv v (Fin 0))
           (sum_axis0 \<lparr>ncols = ncols X, rows = map (map (fmul (Fin 0))) (rows X)\<rparr>)
       = replicate (ncols X) NaN"
proof -
  have "fdiv (fsum (map (\<lambda>r. r ! j) (map (map (fmul (Fin 0))) (rows X)))) (Fin 0) = NaN"
    if "j < ncols X" for j
  proof -
    have "zero_or_nan (map (fmul (Fin 0)) r ! j)" if "r \<in> set (rows X)" for r
      using that assms \<open>j < ncols X\<close>
      by (simp add: wf_matrix_def list_all_iff zn_fmul_zero)
    then have "list_all zero_or_nan (map (\<lambda>r. r ! j) (map (map (fmul (Fin 0))) (rows X)))"
      by (simp add: list_all_iff)
    then show ?thesis
      by (intro zn_fdiv_zero zn_fsum)
  qed
  then show ?thesis
    by (intro nth_equalityI) (simp_all add: sum_axis0_def del: map_map)
qed

lemma sub_row_nan:
  assumes "wf_matrix X"
  shows "sub_row X (replicate (ncols X) NaN)
       = Inr \<lparr>ncols = ncols X, rows = replicate (nrows X) (replicate (ncols X) NaN)\<rparr>"
proof -
  have "map (\<lambda>r. map2 fsub r (replicate (ncols X) NaN)) (rows X)
      = map (\<lambda>r. replicate (ncols X) NaN) (rows X)"
    using assms by (intro map_cong) (simp_all add: wf_matrix_def list_all_iff map2_fsub_nan)
  then show ?thesis
    by (simp add: sub_row_def nrows_def map_replicate_const)
qed

lemma scale_rows_zero_nan:
  "scale_rows (replicate n (Fin 0)) \<lparr>ncols = k, rows = replicate n (replicate k NaN)\<rparr>
     = Inr \<lparr>ncols = k, rows = replicate n (replicate k NaN)\<rparr>"
  by (simp add: scale_rows_def nrows_def map2_replicate)

lemma tdot_nan:
  "tdot \<lparr>ncols = k, rows = replicate n (replicate k NaN)\<rparr>
        \<lparr>ncols = k, rows = replicate n (replicate k NaN)\<rparr>
     = Inr \<lparr>ncols = k, rows = replicate k (replicate k (fsum (replicate n NaN)))\<rparr>"
proof -
  have "map (\<lambda>j. map (\<lambda>c. fsum (map2 (\<lambda>ra rb. fmul (ra ! j) (rb ! c))
                                    (replicate n (replicate k NaN)) (replicate n (replicate k NaN))))
                      [0..<k]) [0..<k]
      = map (\<lambda>j. map (\<lambda>c. fsum (replicate n NaN)) [0..<k]) [0..<k]"
    by (intro map_cong refl) (simp add: map2_same)
  then show ?thesis
    by (simp add: tdot_def nrows_def map_replicate_const)
qed

lemma fsum_nans_div: "fdiv (fsum (replicate n NaN)) (Fin 0) = NaN"
  by (intro zn_fdiv_zero zn_fsum) (simp add: list_all_iff zero_or_nan_def)

lemma Gaussian_zero_weights:
  assumes wf: "wf_matrix X" and w: "as_float weights = replicate (nrows X) (Fin 0)"
  shows "Gaussian_max_likelihood g X weights
       = Inr \<lparr>Gaussian_mean = replicate (ncols X) NaN,
              Gaussian_cov = \<lparr>ncols = ncols X,
                              rows = replicate (ncols X) (replicate (ncols X) NaN)\<rparr>\<rparr>"
proof -
  have sc: "scale_rows (replicate (nrows X) (Fin 0)) X
      = Inr \<lparr>ncols = ncols X, rows = map (map (fmul (Fin 0))) (rows X)\<rparr>"
    by (simp add: scale_rows_def nrows_def map2_replicate)
  show ?thesis
    by (simp add: Gaussian_max_likelihood_def Let_def w sc fsum_zeros zero_weights_mean [OF wf]
          sub_row_nan [OF wf] scale_rows_zero_nan tdot_nan fsum_nans_div del: map_map)
qed


lemma all_false_mask:
  "map (\<lambda>b. if b then Fin 1 else Fin 0) bs = replicate n (Fin 0) \<Longrightarrow> bs = replicate n False"
proof (induction bs arbitrary: n)
  case Nil
  then show ?case by simp
next
  case (Cons b bs)
  then show ?case by (cases n) (auto split: if_splits)
qed

lemma select_none: "map snd (filter fst (zip (replicate n False) rs)) = []"
  by (induction rs arbitrary: n) (simp, case_tac n, simp_all)

lemma zero_weights_mean_SD:
  assumes wf: "wf_matrix X" and w: "as_float weights = replicate (nrows X) (Fin 0)"
  shows "(case weights of
              BoolW bs \<Rightarrow>
                (if length bs \<noteq> nrows X then Inl IndexError
                 else let sel = map snd (filter fst (zip bs (rows X))) in
                      Inr (map (\<lambda>v. fdiv v (Fin (real (length sel))))
                               (sum_axis0 \<lparr>ncols = ncols X, rows = sel\<rparr>)))
            | NumW w \<Rightarrow>
                (case scale_rows w X of
                   Inl e \<Rightarrow> Inl e
                 | Inr WX \<Rightarrow> Inr (map (\<lambda>v. fdiv v (fsum w)) (sum_axis0 WX))))
        = Inr (replicate (ncols X) NaN)"
proof (cases weights)
  case (BoolW bs)
  with w have bs: "bs = replicate (nrows X) False"
    by (simp add: all_false_mask)
  have "map (\<lambda>v. fdiv v (Fin 0)) (sum_axis0 \<lparr>ncols = ncols X, rows = []\<rparr>) = replicate (ncols X) NaN"
    by (intro nth_equalityI) (simp_all add: sum_axis0_def)
  then show ?thesis
    by (simp add: BoolW bs select_none)
next
  case (NumW v)
  with w have v: "v = replicate (nrows X) (Fin 0)" by simp
  have sc: "scale_rows (replicate (nrows X) (Fin 0)) X
      = Inr \<lparr>ncols = ncols X, rows = map (map (fmul (Fin 0))) (rows X)\<rparr>"
    by (simp add: scale_rows_def nrows_def map2_replicate)
  show ?thesis
    by (simp add: NumW v sc fsum_zeros zero_weights_mean [OF wf] del: map_map)
qed

lemma zero_weights_sigma2:
  "vec_dot (sq_norms \<lparr>ncols = k, rows = replicate n (replicate k NaN)\<rparr>) (replicate n (Fin 0)) = Inr dw
     \<Longrightarrow> fdiv (fmul (Fin (1/2)) dw) (Fin 0) = NaN"
proof -
  assume a: "vec_dot (sq_norms \<lparr>ncols = k, rows = replicate n (replicate k NaN)\<rparr>) (replicate n (Fin 0)) = Inr dw"
  have "zero_or_nan (fsum (replicate k NaN))"
    by (intro zn_fsum) (simp add: list_all_iff zero_or_nan_def)
  then have "zero_or_nan (fmul (fsum (replicate k NaN)) (Fin 0))"
    by (rule zn_fmul_zero_right)
  then have "list_all zero_or_nan
          (map2 fmul (sq_norms \<lparr>ncols = k, rows = replicate n (replicate k NaN)\<rparr>) (replicate n (Fin 0)))"
    by (auto simp: list_all_iff sq_norms_def dest!: set_zip_leftD set_zip_rightD)
  then have "zero_or_nan dw"
    using a by (auto simp: vec_dot_def dest: zn_fsum split: if_splits)
  then show ?thesis
    by (intro zn_fdiv_zero zn_fmul_half)
qed

lemma SquareDistance_zero_weights:
  assumes wf: "wf_matrix X" and w: "as_float weights = replicate (nrows X) (Fin 0)"
  shows "SquareDistance_max_likelihood d X weights
       = Inr (d\<lparr>SquareDistance_mean := replicate (ncols X) NaN,
                SquareDistance_sigma2 := (case SquareDistance_sigma2 d of
                                            None \<Rightarrow> None | Some old \<Rightarrow> Some NaN)\<rparr>)"
proof -
  have vd: "\<exists>dw. vec_dot (sq_norms \<lparr>ncols = ncols X, rows = replicate (nrows X) (replicate (ncols X) NaN)\<rparr>)
           (replicate (nrows X) (Fin 0)) = Inr dw"
    by (simp add: vec_dot_def sq_norms_def)
  then obtain dw where dw: "vec_dot (sq_norms \<lparr>ncols = ncols X, rows = replicate (nrows X) (replicate (ncols X) NaN)\<rparr>)
           (replicate (nrows X) (Fin 0)) = Inr dw" by blast
  show ?thesis
    unfolding SquareDistance_max_likelihood_def zero_weights_mean_SD [OF wf w]
    by (simp add: sub_row_nan [OF wf] w dw fsum_zeros zero_weights_sigma2 [OF dw]
          split: option.splits)
qed


text \<open>
  C2, as stated, fails: with all-zero weights neither \<open>max_likelihood\<close> raises. On a batch of
  two one-dimensional points both return normally and store not-a-number.
\<close>

theorem zero_weights_counterexample:
  "Gaussian_max_likelihood
      \<lparr>Gaussian_mean = [Fin 0], Gaussian_cov = \<lparr>ncols = 1, rows = [[Fin 1]]\<rparr>\<rparr>
      \<lparr>ncols = 1, rows = [[Fin 5], [Fin 7]]\<rparr> (NumW [Fin 0, Fin 0])
     = Inr \<lparr>Gaussian_mean = [NaN], Gaussian_cov = \<lparr>ncols = 1, rows = [[NaN]]\<rparr>\<rparr>
   \<and> SquareDistance_max_likelihood
      \<lparr>SquareDistance_mean = [Fin 0], SquareDistance_sigma2 = Some (Fin 1)\<rparr>
      \<lparr>ncols = 1, rows = [[Fin 5], [Fin 7]]\<rparr> (NumW [Fin 0, Fin 0])
     = Inr \<lparr>SquareDistance_mean = [NaN], SquareDistance_sigma2 = Some NaN\<rparr>
   \<and> SquareDistance_max_likelihood
      \<lparr>SquareDistance_mean = [Fin 0], SquareDistance_sigma2 = None\<rparr>
      \<lparr>ncols = 1, rows = [[Fin 5], [Fin 7]]\<rparr> (BoolW [False, False])
     = Inr \<lparr>SquareDistance_mean = [NaN], SquareDistance_sigma2 = None\<rparr>"
  by (simp add: Gaussian_max_likelihood_def SquareDistance_max_likelihood_def scale_rows_def
        sub_row_def tdot_def sum_axis0_def sq_norms_def vec_dot_def nrows_def Let_def fsub_def)

text \<open>
  C2, amended. For every \<open>N\<close> by \<open>D\<close> batch \<open>X\<close> and every weight vector of length \<open>N\<close> that
  is all zeros (numbers, or a mask that is all False), \<open>max_likelihood\<close> on \<open>Gaussian\<close> and on
  \<open>SquareDistance\<close> raises no error: it returns and stores not-a-number, the value of the
  division by the zero sum of the weights, in every entry of \<open>mean\<close>, in every entry of the
  Gaussian's \<open>cov\<close>, and in \<open>sigma2\<close> when it was set. No default value is substituted.
\<close>

theorem zero_weights_give_nan:
  assumes "wf_matrix X" and "as_float weights = replicate (nrows X) (Fin 0)"
  shows "Gaussian_max_likelihood g X weights
           = Inr \<lparr>Gaussian_mean = replicate (ncols X) NaN,
                  Gaussian_cov = \<lparr>ncols = ncols X,
                                  rows = replicate (ncols X) (replicate (ncols X) NaN)\<rparr>\<rparr>
       \<and> SquareDistance_max_likelihood d X weights
           = Inr (d\<lparr>SquareDistance_mean := replicate (ncols X) NaN,
                    SquareDistance_sigma2 := (case SquareDistance_sigma2 d of
                                                None \<Rightarrow> None | Some old \<Rightarrow> Some NaN)\<rparr>)"
  using assms by (simp add: Gaussian_zero_weights SquareDistance_zero_weights)

theorem zero_weights_give_nan_witness:
  "wf_matrix \<lparr>ncols = 2, rows = [[Fin 1, Fin 2], [Fin 3, Fin 4], [Fin 5, Fin 6]]\<rparr>
   \<and> Gaussian_max_likelihood
        \<lparr>Gaussian_mean = [Fin 0, Fin 0], Gaussian_cov = \<lparr>ncols = 2, rows = [[Fin 1, Fin 0], [Fin 0, Fin 1]]\<rparr>\<rparr>
        \<lparr>ncols = 2, rows = [[Fin 1, Fin 2], [Fin 3, Fin 4], [Fin 5, Fin 6]]\<rparr>
        (NumW [Fin 0, Fin 0, Fin 0])
      = Inr \<lparr>Gaussian_mean = [NaN, NaN],
             Gaussian_cov = \<lparr>ncols = 2, rows = [[NaN, NaN], [NaN, NaN]]\<rparr>\<rparr>
   \<and> SquareDistance_max_likelihood
        \<lparr>SquareDistance_mean = [Fin 0, Fin 0], SquareDistance_sigma2 = Some (Fin 1)\<rparr>
        \<lparr>ncols = 2, rows = [[Fin 1, Fin 2], [Fin 3, Fin 4], [Fin 5, Fin 6]]\<rparr>
        (NumW [Fin 0, Fin 0, Fin 0])
      = Inr \<lparr>SquareDistance_mean = [NaN, NaN], SquareDistance_sigma2 = Some NaN\<rparr>"
proof -
  let ?X = "\<lparr>ncols = 2, rows = [[Fin 1, Fin 2], [Fin 3, Fin 4], [Fin 5, Fin 6]]\<rparr>"
  have wf: "wf_matrix ?X"
    by (simp add: wf_matrix_def)
  have w: "as_float (NumW [Fin 0, Fin 0, Fin 0]) = replicate (nrows ?X) (Fin 0)"
    by (simp add: nrows_def numeral_3_eq_3)
  from zero_weights_give_nan [OF wf w] wf show ?thesis
    by (simp add: numeral_2_eq_2)
qed

subsection \<open>The variance after \<open>SquareDistance.max_likelihood\<close>\<close>

text \<open>
  C3, as stated, fails: the invariant "\<open>sigma2\<close> is \<open>None\<close> or \<open>sigma2 > 0\<close>" is not
  preserved. With the points 5 and 9 and the weights 1 and 0, the new mean is the only
  weighted point and the new \<open>sigma2\<close> is 0.
\<close>

theorem sigma2_positive_counterexample:
  "sd_invariant \<lparr>SquareDistance_mean = [Fin 0], SquareDistance_sigma2 = Some (Fin 1)\<rparr>
   \<and> good_weights (nrows \<lparr>ncols = 1, rows = [[Fin 5], [Fin 9]]\<rparr>) (NumW [Fin 1, Fin 0])
   \<and> SquareDistance_max_likelihood
        \<lparr>SquareDistance_mean = [Fin 0], SquareDistance_sigma2 = Some (Fin 1)\<rparr>
        \<lparr>ncols = 1, rows = [[Fin 5], [Fin 9]]\<rparr> (NumW [Fin 1, Fin 0])
      = Inr \<lparr>SquareDistance_mean = [Fin 5], SquareDistance_sigma2 = Some (Fin 0)\<rparr>
   \<and> \<not> sd_invariant \<lparr>SquareDistance_mean = [Fin 5], SquareDistance_sigma2 = Some (Fin 0)\<rparr>"
  by (simp add: sd_invariant_def fpositive_def good_weights_def nrows_def
        SquareDistance_max_likelihood_def scale_rows_def sub_row_def sum_axis0_def
        sq_norms_def vec_dot_def fsub_def)

subsection \<open>Rounding to binary64\<close>

lemma round_even_of_int [simp]: "round_even (of_int n) = n"
  by (simp add: round_even_def)

lemma round_even_nonneg: "0 \<le> y \<Longrightarrow> 0 \<le> round_even y"
  by (auto simp: round_even_def Let_def)

lemma round_even_nonpos: "y \<le> 0 \<Longrightarrow> round_even y \<le> 0"
proof -
  assume y: "y \<le> 0"
  show ?thesis
  proof (cases "y = of_int \<lfloor>y\<rfloor>")
    case True
    then have "round_even y = \<lfloor>y\<rfloor>"
      by (simp add: round_even_def)
    with y show ?thesis by simp
  next
    case False
    then have "of_int \<lfloor>y\<rfloor> < y" by linarith
    with y have "\<lfloor>y\<rfloor> < 0" by linarith
    then have "\<lfloor>y\<rfloor> + 1 \<le> 0" by linarith
    moreover have "round_even y \<le> \<lfloor>y\<rfloor> + 1"
      by (simp add: round_even_def Let_def)
    ultimately show ?thesis by linarith
  qed
qed

lemma round64_zero [simp]: "round64 0 = Fin 0"
  by (simp add: round64_def)

lemma round64_nonneg:
  assumes "0 \<le> x"
  shows "round64 x = PInf \<or> (\<exists>y. round64 x = Fin y \<and> 0 \<le> y)"
proof (cases "x = 0")
  case True
  then show ?thesis by simp
next
  case False
  let ?q = "2 powi (expo x - 52) :: real"
  have q: "0 < ?q" by simp
  with assms have "0 \<le> x / ?q" by simp
  then have "0 \<le> round_even (x / ?q)" by (rule round_even_nonneg)
  then have "0 \<le> of_int (round_even (x / ?q)) * ?q"
    using q by simp
  then show ?thesis
    using False by (auto simp: round64_def Let_def)
qed

lemma round64_nonpos:
  assumes "x \<le> 0"
  shows "round64 x = NInf \<or> (\<exists>y. round64 x = Fin y \<and> y \<le> 0)"
proof (cases "x = 0")
  case True
  then show ?thesis by simp
next
  case False
  let ?q = "2 powi (expo x - 52) :: real"
  have q: "0 < ?q" by simp
  with assms have "x / ?q \<le> 0" by (simp add: divide_nonpos_pos)
  then have "round_even (x / ?q) \<le> 0" by (rule round_even_nonpos)
  then have "of_int (round_even (x / ?q)) * ?q \<le> 0"
    using q by (simp add: mult_nonpos_nonneg)
  then show ?thesis
    using False by (auto simp: round64_def Let_def)
qed

lemma expo_eq:
  assumes "2 powi e \<le> \<bar>x\<bar>" and "\<bar>x\<bar> < 2 powi (e + 1)"
  shows "expo x = max e (- 1022)"
proof -
  have "(0::real) < 2 powi e" by simp
  with assms(1) have pos: "0 < \<bar>x\<bar>" by linarith
  have p1: "(2::real) powr (of_int e) = 2 powi e"
    by (rule powr_real_of_int') simp_all
  have p2: "(2::real) powr (of_int (e + 1)) = 2 powi (e + 1)"
    by (rule powr_real_of_int') simp_all
  have "(2::real) powr (of_int e) \<le> \<bar>x\<bar> \<and> \<bar>x\<bar> < 2 powr (of_int e + 1)"
    using assms p1 p2 by simp
  then have "\<lfloor>log 2 \<bar>x\<bar>\<rfloor> = e"
    using pos floor_log_eq_powr_iff [of "\<bar>x\<bar>" 2 e] by simp
  then show ?thesis
    by (simp add: expo_def)
qed


lemma expo_bounds:
  assumes "2 powi lo \<le> \<bar>x\<bar>" and "\<bar>x\<bar> < 2 powi hi"
  shows "lo \<le> \<lfloor>log 2 \<bar>x\<bar>\<rfloor> \<and> \<lfloor>log 2 \<bar>x\<bar>\<rfloor> < hi"
proof -
  have "(0::real) < 2 powi lo" by simp
  with assms(1) have pos: "0 < \<bar>x\<bar>" by linarith
  have p1: "(2::real) powr (of_int lo) = 2 powi lo"
    by (rule powr_real_of_int') simp_all
  have p2: "(2::real) powr (of_int hi) = 2 powi hi"
    by (rule powr_real_of_int') simp_all
  have "of_int lo \<le> log 2 \<bar>x\<bar>"
    using pos assms(1) p1 by (simp add: le_log_iff)
  moreover have "log 2 \<bar>x\<bar> < of_int hi"
    using pos assms(2) p2 by (simp add: log_less_iff)
  ultimately show ?thesis
    by (simp add: le_floor_iff floor_less_iff)
qed

lemma round64_exact:
  assumes x: "x = of_int k * 2 powi e" and k: "\<bar>k\<bar> < 2 ^ 53" and lo: "- 1074 \<le> e" and hi: "e \<le> 971"
  shows "round64 x = Fin x"
proof (cases "k = 0")
  case True
  with x show ?thesis by simp
next
  case False
  have ax: "\<bar>x\<bar> = of_int \<bar>k\<bar> * 2 powi e"
    by (simp add: x abs_mult)
  from False have k1: "1 \<le> \<bar>k\<bar>" by linarith
  have "1 * 2 powi e \<le> of_int \<bar>k\<bar> * (2::real) powi e"
    using k1 by (intro mult_right_mono) simp_all
  then have lo': "2 powi e \<le> \<bar>x\<bar>"
    by (simp add: ax)
  have "of_int \<bar>k\<bar> * (2::real) powi e < 2 ^ 53 * 2 powi e"
    using k by (intro mult_strict_right_mono) (simp_all flip: of_int_less_iff[where 'a=real])
  also have "\<dots> = 2 powi (e + 53)"
    by (simp add: power_int_add)
  finally have hi': "\<bar>x\<bar> < 2 powi (e + 53)"
    by (simp add: ax)
  from expo_bounds [OF lo' hi'] have E: "e \<le> \<lfloor>log 2 \<bar>x\<bar>\<rfloor>" "\<lfloor>log 2 \<bar>x\<bar>\<rfloor> < e + 53"
    by simp_all
  define g where "g = expo x - 52"
  have g: "g \<le> e"
    using E lo by (simp add: g_def expo_def)
  have xq: "x / 2 powi g = of_int (k * 2 ^ nat (e - g))"
  proof -
    have "x / 2 powi g = of_int k * (2 powi e / 2 powi g)"
      by (simp add: x)
    also have "(2::real) powi e / 2 powi g = 2 powi (e - g)"
      by (simp add: power_int_diff)
    also have "(2::real) powi (e - g) = 2 ^ nat (e - g)"
      using g by (simp add: power_int_def)
    finally show ?thesis by simp
  qed
  have y: "of_int (round_even (x / 2 powi g)) * 2 powi g = x"
  proof -
    have "of_int (round_even (x / 2 powi g)) * 2 powi g = (x / 2 powi g) * 2 powi g"
      unfolding xq round_even_of_int ..
    then show ?thesis by simp
  qed
  have "of_int \<bar>k\<bar> * (2::real) powi e < 2 ^ 53 * 2 powi e"
    using k by (intro mult_strict_right_mono) (simp_all flip: of_int_less_iff[where 'a=real])
  also have "(2::real) ^ 53 * 2 powi e \<le> 2 ^ 53 * 2 powi 971"
    using hi by (intro mult_left_mono power_int_increasing) simp_all
  also have "(2::real) ^ 53 * 2 powi 971 = 2 ^ 1024"
    by (simp add: power_int_def flip: power_add)
  finally have small: "\<bar>x\<bar> < 2 ^ 1024"
    by (simp add: ax)
  from False x have "x \<noteq> 0" by simp
  then show ?thesis
    using y small by (simp add: round64_def Let_def g_def)
qed


lemma round64_eval:
  assumes "2 powi e \<le> \<bar>x\<bar>" and "\<bar>x\<bar> < 2 powi (e + 1)"
  shows "round64 x =
     (let q = 2 powi (max e (- 1022) - 52);
          y = of_int (round_even (x / q)) * q
      in if 2 ^ 1024 \<le> \<bar>y\<bar> then (if 0 < y then PInf else NInf) else Fin y)"
proof -
  have "(0::real) < 2 powi e" by simp
  with assms(1) have "x \<noteq> 0" by linarith
  then show ?thesis
    by (simp add: round64_def expo_eq [OF assms])
qed

lemma round64_overflow:
  assumes "2 ^ 1024 \<le> x"
  shows "round64 x = PInf"
proof -
  have "(0::real) < 2 ^ 1024" by simp
  with assms have x0: "0 < x" by linarith
  define E where "E = \<lfloor>log 2 \<bar>x\<bar>\<rfloor>"
  have p: "(2::real) powr (of_int n) = 2 powi n" for n
    by (rule powr_real_of_int') simp_all
  have "(2::real) powr (of_int 1024) \<le> \<bar>x\<bar>"
    using assms x0 by (simp add: p power_int_def)
  then have "of_int 1024 \<le> log 2 \<bar>x\<bar>"
    using x0 by (subst le_log_iff) simp_all
  then have E: "1024 \<le> E"
    unfolding E_def by (simp only: le_floor_iff)
  have "of_int E \<le> log 2 \<bar>x\<bar>"
    unfolding E_def by simp
  then have "2 powr (of_int E) \<le> \<bar>x\<bar>"
    using x0 by (subst (asm) le_log_iff) simp_all
  then have lo: "2 powi E \<le> x"
    using x0 by (simp add: p)
  let ?q = "2 powi (E - 52) :: real"
  have expo: "expo x = E"
    using E by (simp add: expo_def E_def)
  have "2 powi 52 = 2 powi E / ?q"
    by (simp add: power_int_diff)
  also have "\<dots> \<le> x / ?q"
    using lo by (intro divide_right_mono) simp_all
  finally have "of_int (2 ^ 52) \<le> x / ?q"
    by (simp add: power_int_def)
  then have "2 ^ 52 \<le> \<lfloor>x / ?q\<rfloor>"
    by (simp only: le_floor_iff)
  moreover have "\<lfloor>x / ?q\<rfloor> \<le> round_even (x / ?q)"
    by (simp add: round_even_def Let_def)
  ultimately have "(2::int) ^ 52 \<le> round_even (x / ?q)"
    by linarith
  then have "real_of_int (2 ^ 52) \<le> of_int (round_even (x / ?q))"
    by (simp only: of_int_le_iff)
  then have "of_int (2 ^ 52) * ?q \<le> of_int (round_even (x / ?q)) * ?q"
    by (intro mult_right_mono) simp_all
  moreover have "of_int (2 ^ 52) * ?q = 2 powi E"
  proof -
    have "of_int (2 ^ 52) * ?q = 2 powi 52 * ?q"
      by (simp add: power_int_def)
    also have "\<dots> = 2 powi (52 + (E - 52))"
      by (subst power_int_add) simp_all
    finally show ?thesis by simp
  qed
  moreover have "(2::real) powi 1024 \<le> 2 powi E"
    using E by (intro power_int_increasing) simp_all
  ultimately have big: "2 ^ 1024 \<le> of_int (round_even (x / ?q)) * ?q"
    by (simp add: power_int_def)
  with \<open>(0::real) < 2 ^ 1024\<close> have "0 < of_int (round_even (x / ?q)) * ?q"
    by linarith
  with big have "2 ^ 1024 \<le> \<bar>of_int (round_even (x / ?q)) * ?q\<bar>"
    by linarith
  then show ?thesis
    using x0 \<open>0 < of_int (round_even (x / ?q)) * ?q\<close>
    by (simp add: round64_def Let_def expo)
qed

lemma round_even_near:
  assumes "\<bar>y - of_int n\<bar> < 1/2"
  shows "round_even y = n"
proof -
  have "\<lfloor>y\<rfloor> = n \<or> \<lfloor>y\<rfloor> = n - 1"
    using assms by linarith
  then show ?thesis
  proof
    assume f: "\<lfloor>y\<rfloor> = n"
    with assms have "y - of_int \<lfloor>y\<rfloor> < 1/2" by linarith
    then show ?thesis by (simp add: round_even_def Let_def f)
  next
    assume f: "\<lfloor>y\<rfloor> = n - 1"
    with assms have "1/2 < y - of_int \<lfloor>y\<rfloor>" by linarith
    then show ?thesis by (simp add: round_even_def Let_def f)
  qed
qed

lemma round_even_tie:
  assumes "y = of_int n + 1/2"
  shows "round_even y = (if even n then n else n + 1)"
proof -
  have f: "\<lfloor>y\<rfloor> = n"
    using assms by linarith
  show ?thesis
    using assms by (simp add: round_even_def Let_def f)
qed

lemma round64_at:
  assumes "2 powi e \<le> \<bar>x\<bar>" and "\<bar>x\<bar> < 2 powi (e + 1)" and "- 1022 \<le> e"
    and "round_even (x / 2 powi (e - 52)) = n"
    and "\<bar>of_int n * 2 powi (e - 52)\<bar> < (2::real) ^ 1024"
  shows "round64 x = Fin (of_int n * 2 powi (e - 52))"
  using assms(3-5) by (simp add: round64_eval [OF assms(1,2)] Let_def max_def)

subsection \<open>Signs under \<open>online_update\<close>\<close>

lemma not_negative_Fin [simp]: "not_negative (Fin a) = (0 \<le> a)"
  by (simp add: not_negative_def)

lemma nn_rnd: "not_negative v \<Longrightarrow> not_negative (rnd v)"
proof (cases v)
  case (Fin a)
  assume "not_negative v"
  with Fin have "0 \<le> a" by simp
  from round64_nonneg [OF this] Fin show ?thesis
    by (auto simp: not_negative_def)
qed (simp_all add: not_negative_def)

lemma nn_fadd: "not_negative a \<Longrightarrow> not_negative b \<Longrightarrow> not_negative (fadd a b)"
  by (cases a; cases b) (simp_all add: not_negative_def)

lemma nn_fmul: "not_negative a \<Longrightarrow> not_negative b \<Longrightarrow> not_negative (fmul a b)"
  by (cases a; cases b) (simp_all add: not_negative_def)

lemma nn_fdiv: "not_negative a \<Longrightarrow> not_negative b \<Longrightarrow> not_negative (fdiv a b)"
  by (cases a; cases b) (simp_all add: not_negative_def)

lemma nn_square: "not_negative (fmul v v)"
  by (cases v) (simp_all add: not_negative_def)

lemma nn_radd: "not_negative a \<Longrightarrow> not_negative b \<Longrightarrow> not_negative (radd a b)"
  by (simp add: radd_def nn_rnd nn_fadd)

lemma nn_rmul: "not_negative a \<Longrightarrow> not_negative b \<Longrightarrow> not_negative (rmul a b)"
  by (simp add: rmul_def nn_rnd nn_fmul)

lemma nn_rdiv: "not_negative a \<Longrightarrow> not_negative b \<Longrightarrow> not_negative (rdiv a b)"
  by (simp add: rdiv_def nn_rnd nn_fdiv)

lemma nn_rsquare: "not_negative (rmul v v)"
  by (simp add: rmul_def nn_rnd nn_square)

lemma nn_foldl: "not_negative acc \<Longrightarrow> list_all not_negative vs \<Longrightarrow> not_negative (foldl radd acc vs)"
  by (induction vs arbitrary: acc) (simp_all add: nn_radd)

lemma nn_fsum64: "list_all not_negative vs \<Longrightarrow> not_negative (fsum64 vs)"
  by (simp add: fsum64_def nn_foldl)

lemma nn_one_minus_step: "step_ok st \<Longrightarrow> not_negative (rsub (Fin 1) st)"
proof (cases st)
  case (Fin t)
  assume "step_ok st"
  with Fin have "not_negative (Fin (1 - t))"
    by (simp add: step_ok_def)
  then have "not_negative (rnd (Fin (1 - t)))"
    by (rule nn_rnd)
  with Fin show ?thesis
    by (simp add: rsub_def fsub_def)
qed (simp_all add: step_ok_def)

lemma nn_step: "step_ok st \<Longrightarrow> not_negative st"
  by (cases st) (simp_all add: step_ok_def)

lemma nn_dot_col64:
  assumes "no_negative_vec v" and "no_negative_mat M" and "wf_matrix M" and "k < ncols M"
  shows "not_negative (dot_col64 v M k)"
proof -
  have "not_negative (rmul a (r ! k))" if "(a, r) \<in> set (zip v (rows M))" for a r
  proof -
    from that have a: "a \<in> set v" and r: "r \<in> set (rows M)"
      by (auto dest: set_zip_leftD set_zip_rightD)
    from r assms have "r ! k \<in> set r"
      by (simp add: wf_matrix_def list_all_iff)
    with r assms have "not_negative (r ! k)"
      by (auto simp: no_negative_mat_def no_negative_vec_def list_all_iff)
    moreover from a assms have "not_negative a"
      by (simp add: no_negative_vec_def list_all_iff)
    ultimately show ?thesis by (simp add: nn_rmul)
  qed
  then have "list_all not_negative (map2 (\<lambda>a r. rmul a (r ! k)) v (rows M))"
    by (auto simp: list_all_iff)
  then show ?thesis
    by (simp add: dot_col64_def nn_fsum64)
qed

lemma nn_dot_cols64:
  assumes "no_negative_vec v" and "no_negative_mat M" and "wf_matrix M" and "not_negative c"
  shows "no_negative_vec (map (rmul c) (map (dot_col64 v M) [0..<ncols M]))"
  using assms by (simp add: no_negative_vec_def list_all_iff nn_rmul nn_dot_col64)

lemma no_negative_vec_update:
  "no_negative_vec v \<Longrightarrow> not_negative a \<Longrightarrow> no_negative_vec (v[j := a])"
  by (auto simp: no_negative_vec_def list_all_iff dest!: set_update_subset_insert [THEN subsetD])

lemma no_negative_vec_nth: "no_negative_vec v \<Longrightarrow> j < length v \<Longrightarrow> not_negative (v ! j)"
  by (simp add: no_negative_vec_def list_all_iff)

lemma no_negative_broadcast:
  assumes "broadcast_to n v = Inr b" and "no_negative_vec v"
  shows "no_negative_vec b"
  using assms
  by (cases v) (auto simp: broadcast_to_def no_negative_vec_def list_all_iff split: if_splits)

lemma online_update_no_negative_step:
  assumes s: "no_negative_stats s" and u: "no_negative_update (x, r, step)"
    and res: "KLSufficientStatistics_online_update s x r step = Inr s'"
  shows "no_negative_stats s'"
proof -
  from u have x: "no_negative_vec x" and wf: "wf_matrix r" and r: "no_negative_mat r"
    and st: "step_ok step"
    by (simp_all add: no_negative_update_def)
  let ?c = "rsub (Fin 1) step"
  have c: "not_negative ?c" using st by (rule nn_one_minus_step)
  let ?a = "map (rmul ?c) (map (dot_col64 (rho0 s) r) [0..<ncols r])"
  let ?m = "map (map (rmul ?c)) (map (\<lambda>ra. map (dot_col64 ra r) [0..<ncols r]) (rows (rho s)))"
  from res obtain j j2 sx where
    j: "norm_index (length ?a) (cluster_id s) = Inr j" and
    j2: "norm_index (ncols r) (cluster_id s) = Inr j2" and
    sx: "broadcast_to (length ?m) (map (rmul step) x) = Inr sx" and
    s': "s' = s\<lparr>rho0 := ?a[j := radd (?a ! j) step],
               rho := \<lparr>ncols = ncols r, rows = map2 (\<lambda>rw v. rw[j2 := radd (rw ! j2) v]) ?m sx\<rparr>\<rparr>"
    by (auto simp: KLSufficientStatistics_online_update_def vec_mat64_def mat_mat64_def Let_def
             simp del: map_map split: if_splits sum.splits)
  have a: "no_negative_vec ?a"
    using s wf r c by (intro nn_dot_cols64) (simp_all add: no_negative_stats_def)
  have jl: "j < length ?a" using j by (rule norm_index_less)
  have rho0: "no_negative_vec (?a[j := radd (?a ! j) step])"
    using a jl st by (intro no_negative_vec_update nn_radd no_negative_vec_nth nn_step)
  have "no_negative_vec (map (rmul step) x)"
    using x st by (simp add: no_negative_vec_def list_all_iff nn_rmul nn_step)
  with sx have sxn: "no_negative_vec sx" by (rule no_negative_broadcast)
  have j2l: "j2 < ncols r" using j2 by (rule norm_index_less)
  have rowm: "no_negative_vec rw \<and> j2 < length rw" if "rw \<in> set ?m" for rw
  proof -
    from that obtain ra where ra: "ra \<in> set (rows (rho s))"
      and rw: "rw = map (rmul ?c) (map (dot_col64 ra r) [0..<ncols r])"
      by (auto simp del: map_map)
    from ra s have "no_negative_vec ra"
      by (simp add: no_negative_stats_def no_negative_mat_def list_all_iff)
    then have "no_negative_vec rw"
      unfolding rw using r wf c by (rule nn_dot_cols64)
    moreover have "j2 < length rw"
      using j2l by (simp add: rw)
    ultimately show ?thesis ..
  qed
  have "no_negative_vec (rw[j2 := radd (rw ! j2) v])" if "(rw, v) \<in> set (zip ?m sx)" for rw v
  proof -
    from that have "rw \<in> set ?m" and "v \<in> set sx"
      by (auto dest: set_zip_leftD set_zip_rightD)
    with rowm sxn show ?thesis
      by (intro no_negative_vec_update nn_radd no_negative_vec_nth)
         (auto simp: no_negative_vec_def list_all_iff)
  qed
  then have "no_negative_mat \<lparr>ncols = ncols r, rows = map2 (\<lambda>rw v. rw[j2 := radd (rw ! j2) v]) ?m sx\<rparr>"
    by (auto simp: no_negative_mat_def list_all_iff)
  with rho0 s' show ?thesis
    by (simp add: no_negative_stats_def)
qed

lemma online_updates_no_negative:
  assumes "no_negative_stats s" and "list_all no_negative_update us"
    and "online_updates s us = Inr s'"
  shows "no_negative_stats s'"
  using assms
proof (induction us arbitrary: s)
  case Nil
  then show ?case by simp
next
  case (Cons u us)
  obtain x r step where u: "u = (x, r, step)" by (cases u) auto
  with Cons.prems obtain s1 where
    s1: "KLSufficientStatistics_online_update s x r step = Inr s1" and
    rest: "online_updates s1 us = Inr s'"
    by (auto split: sum.splits)
  from Cons.prems u s1 have "no_negative_stats s1"
    by (auto intro: online_update_no_negative_step)
  with Cons.IH rest Cons.prems show ?case by simp
qed

lemma online_update_returns:
  assumes "length (rho0 s) = nrows r" and "ncols (rho s) = nrows r"
    and "0 \<le> cluster_id s" and "cluster_id s < int (ncols r)"
    and "length x = nrows (rho s) \<or> length x = 1"
  shows "\<exists>s'. KLSufficientStatistics_online_update s x r step = Inr s'"
  using assms
  by (auto simp: KLSufficientStatistics_online_update_def vec_mat64_def mat_mat64_def Let_def
        norm_index_nonneg broadcast_to_def nrows_def)


lemma round64_dyadic:
  assumes "\<bar>k\<bar> < 2 ^ 53" and "m \<le> 1074"
  shows "round64 (of_int k / 2 ^ m) = Fin (of_int k / 2 ^ m)"
proof -
  have "of_int k / (2::real) ^ m = of_int k * 2 powi (- int m)"
    by (simp add: power_int_minus field_simps)
  moreover have "- 1074 \<le> - int m" "- int m \<le> 971"
    using assms(2) by simp_all
  ultimately show ?thesis
    using round64_exact [of "of_int k / 2 ^ m" k "- int m"] assms(1) by simp
qed

lemma round64_values:
  "round64 1 = Fin 1"
  "round64 2 = Fin 2"
  "round64 (1/2) = Fin (1/2)"
  "round64 (3/2) = Fin (3/2)"
  using round64_dyadic [of 1 0] round64_dyadic [of 2 0] round64_dyadic [of 1 1]
    round64_dyadic [of 3 1]
  by simp_all

lemma round64_values2:
  "round64 (3/4) = Fin (3/4)"
  "round64 (9/4) = Fin (9/4)"
  "round64 (1/4) = Fin (1/4)"
  "round64 (1/8) = Fin (1/8)"
  "round64 (5/8) = Fin (5/8)"
  "round64 (9/8) = Fin (9/8)"
  "round64 (15/8) = Fin (15/8)"
  "round64 (9/16) = Fin (9/16)"
  "round64 (15/16) = Fin (15/16)"
  "round64 (33/16) = Fin (33/16)"
  using round64_dyadic [of 3 2] round64_dyadic [of 9 2] round64_dyadic [of 1 2]
    round64_dyadic [of 1 3] round64_dyadic [of 5 3] round64_dyadic [of 9 3]
    round64_dyadic [of 15 3] round64_dyadic [of 9 4] round64_dyadic [of 15 4]
    round64_dyadic [of 33 4]
  by simp_all

text \<open>
  C4, as stated, fails: a product can overflow, and infinity times zero is not-a-number.
  From the state the constructor builds for \<open>x = [2^1023]\<close>, with non-negative \<open>r\<close>, \<open>x\<close>
  and \<open>step = 0.5\<close>, two calls leave \<open>rho = [[inf, nan]]\<close>.
\<close>

theorem online_update_overflow_counterexample:
  "nonneg_stats \<lparr>cluster_id = 0, K = 2, rho0 = [Fin 0, Fin 0],
                 rho = \<lparr>ncols = 2, rows = [[Fin (2 ^ 1023), Fin 0]]\<rparr>\<rparr>
   \<and> nonneg_update ([Fin 1], \<lparr>ncols = 2, rows = [[Fin 4, Fin 0], [Fin 0, Fin 1]]\<rparr>, Fin (1/2))
   \<and> online_updates
        \<lparr>cluster_id = 0, K = 2, rho0 = [Fin 0, Fin 0],
         rho = \<lparr>ncols = 2, rows = [[Fin (2 ^ 1023), Fin 0]]\<rparr>\<rparr>
        [([Fin 1], \<lparr>ncols = 2, rows = [[Fin 4, Fin 0], [Fin 0, Fin 1]]\<rparr>, Fin (1/2)),
         ([Fin 1], \<lparr>ncols = 2, rows = [[Fin 4, Fin 0], [Fin 0, Fin 1]]\<rparr>, Fin (1/2))]
      = Inr \<lparr>cluster_id = 0, K = 2, rho0 = [Fin (3/2), Fin 0],
             rho = \<lparr>ncols = 2, rows = [[PInf, NaN]]\<rparr>\<rparr>
   \<and> \<not> nonneg_stats \<lparr>cluster_id = 0, K = 2, rho0 = [Fin (3/2), Fin 0],
                     rho = \<lparr>ncols = 2, rows = [[PInf, NaN]]\<rparr>\<rparr>"
  by (simp add: nonneg_stats_def nonneg_vec_def nonneg_mat_def nonneg_update_def wf_matrix_def
        step_ok_def nonneg_def
        KLSufficientStatistics_online_update_def vec_mat64_def mat_mat64_def nrows_def
        dot_col64_def fsum64_def norm_index_def broadcast_to_def Let_def upt_rec
        radd_def rmul_def rsub_def fsub_def round64_values round64_overflow)


text \<open>
  C4, amended. \<open>online_update\<close> never produces a negative entry: when no entry of \<open>rho0\<close>,
  \<open>rho\<close>, \<open>x\<close> and the (rectangular) matrix \<open>r\<close> is negative and \<open>step\<close> lies in
  \<open>(0, 1]\<close>, then after the call, and after every sequence of such calls, every entry of
  \<open>rho0\<close> and \<open>rho\<close> is a number that is at least 0, or plus infinity, or not-a-number.
  The call does return when the shapes fit (\<open>online_update_returns\<close>).
\<close>

theorem online_update_never_negative:
  "(no_negative_stats s \<and> no_negative_update (x, r, step)
      \<and> KLSufficientStatistics_online_update s x r step = Inr s1 \<longrightarrow> no_negative_stats s1)
   \<and> (no_negative_stats s \<and> list_all no_negative_update us \<and> online_updates s us = Inr s2
        \<longrightarrow> no_negative_stats s2)"
  using online_update_no_negative_step [of s x r step s1] online_updates_no_negative [of s us s2]
  by blast

theorem online_update_never_negative_witness:
  "no_negative_stats \<lparr>cluster_id = 0, K = 2, rho0 = [Fin 0, Fin 0],
                      rho = \<lparr>ncols = 2, rows = [[Fin 3, Fin 0]]\<rparr>\<rparr>
   \<and> no_negative_update ([Fin 3], \<lparr>ncols = 2, rows = [[Fin (1/2), Fin (1/2)], [Fin 0, Fin 1]]\<rparr>, Fin (1/2))
   \<and> KLSufficientStatistics_online_update
        \<lparr>cluster_id = 0, K = 2, rho0 = [Fin 0, Fin 0], rho = \<lparr>ncols = 2, rows = [[Fin 3, Fin 0]]\<rparr>\<rparr>
        [Fin 3] \<lparr>ncols = 2, rows = [[Fin (1/2), Fin (1/2)], [Fin 0, Fin 1]]\<rparr> (Fin (1/2))
      = Inr \<lparr>cluster_id = 0, K = 2, rho0 = [Fin (1/2), Fin 0],
             rho = \<lparr>ncols = 2, rows = [[Fin (9/4), Fin (3/4)]]\<rparr>\<rparr>
   \<and> no_negative_stats \<lparr>cluster_id = 0, K = 2, rho0 = [Fin (1/2), Fin 0],
                        rho = \<lparr>ncols = 2, rows = [[Fin (9/4), Fin (3/4)]]\<rparr>\<rparr>
   \<and> online_updates
        \<lparr>cluster_id = 0, K = 2, rho0 = [Fin 0, Fin 0], rho = \<lparr>ncols = 2, rows = [[Fin 3, Fin 0]]\<rparr>\<rparr>
        [([Fin 3], \<lparr>ncols = 2, rows = [[Fin (1/2), Fin (1/2)], [Fin 0, Fin 1]]\<rparr>, Fin (1/2)),
         ([Fin 3], \<lparr>ncols = 2, rows = [[Fin (1/2), Fin (1/2)], [Fin 0, Fin 1]]\<rparr>, Fin (1/2))]
      = Inr \<lparr>cluster_id = 0, K = 2, rho0 = [Fin (5/8), Fin (1/8)],
             rho = \<lparr>ncols = 2, rows = [[Fin (33/16), Fin (15/16)]]\<rparr>\<rparr>
   \<and> no_negative_stats \<lparr>cluster_id = 0, K = 2, rho0 = [Fin (5/8), Fin (1/8)],
                        rho = \<lparr>ncols = 2, rows = [[Fin (33/16), Fin (15/16)]]\<rparr>\<rparr>"
proof -
  let ?s = "\<lparr>cluster_id = 0, K = 2, rho0 = [Fin 0, Fin 0],
             rho = \<lparr>ncols = 2, rows = [[Fin 3, Fin 0]]\<rparr>\<rparr>"
  let ?r = "\<lparr>ncols = 2, rows = [[Fin (1/2), Fin (1/2)], [Fin 0, Fin 1]]\<rparr>"
  let ?s1 = "\<lparr>cluster_id = 0, K = 2, rho0 = [Fin (1/2), Fin 0],
              rho = \<lparr>ncols = 2, rows = [[Fin (9/4), Fin (3/4)]]\<rparr>\<rparr>"
  let ?s2 = "\<lparr>cluster_id = 0, K = 2, rho0 = [Fin (5/8), Fin (1/8)],
              rho = \<lparr>ncols = 2, rows = [[Fin (33/16), Fin (15/16)]]\<rparr>\<rparr>"
  let ?us = "[([Fin 3], ?r, Fin (1/2)), ([Fin 3], ?r, Fin (1/2))]"
  have s: "no_negative_stats ?s"
    by (simp add: no_negative_stats_def no_negative_vec_def no_negative_mat_def not_negative_def)
  have u: "no_negative_update ([Fin 3], ?r, Fin (1/2))"
    by (simp add: no_negative_update_def no_negative_vec_def no_negative_mat_def wf_matrix_def
          step_ok_def not_negative_def)
  have e1: "KLSufficientStatistics_online_update ?s [Fin 3] ?r (Fin (1/2)) = Inr ?s1"
    by (simp add: KLSufficientStatistics_online_update_def vec_mat64_def mat_mat64_def nrows_def
          dot_col64_def fsum64_def norm_index_def broadcast_to_def Let_def upt_rec
          radd_def rmul_def rsub_def fsub_def round64_values round64_values2)
  have e2: "online_updates ?s ?us = Inr ?s2"
    by (simp add: KLSufficientStatistics_online_update_def vec_mat64_def mat_mat64_def nrows_def
          dot_col64_def fsum64_def norm_index_def broadcast_to_def Let_def upt_rec
          radd_def rmul_def rsub_def fsub_def round64_values round64_values2)
  have us: "list_all no_negative_update ?us"
    using u by simp
  from online_update_never_negative [of ?s "[Fin 3]" ?r "Fin (1/2)" ?s1 ?us ?s2] s u e1 e2 us
  have "no_negative_stats ?s1 \<and> no_negative_stats ?s2"
    by blast
  with s u e1 e2 show ?thesis
    by blast
qed

end
